theory Spec2Isabelle
  imports Main
begin

section \<open>Values and errors\<close>

text \<open>
  The engine is written against TypeScript's \<open>any\<close>: an input, a handler's return value
  and a work function's result are arbitrary JavaScript values. The engine itself only
  ever asks of such a value whether it is \<open>null\<close> or \<open>undefined\<close>, so a value is one of
  these two or some other value of a type \<open>'a\<close> the engine never looks into.
\<close>

datatype 'a jsval = Null | Undefined | Val 'a

text \<open>
  What a \<open>throw\<close> or a rejected promise carries. \<open>AgentError\<close> is the class of
  \<open>types.ts\<close> (message, code, and the original error kept under
  \<open>details.originalError\<close>); \<open>PlainError\<close> is any other instance of \<open>Error\<close> (its name
  and its message); \<open>NonError\<close> is a thrown value that is no \<open>Error\<close> at all, represented
  by the two observations the engine makes of it: what \<open>String(v)\<close> does, and its
  truthiness. \<open>String(v)\<close> gives a string (\<open>Inr\<close>) or throws (\<open>Inl\<close>): a \<open>TypeError\<close> for
  an object without a usable \<open>toString\<close> and \<open>valueOf\<close>, such as \<open>Object.create(null)\<close>,
  and for an object with a \<open>toString\<close> of its own whatever that method throws.
\<close>

datatype thrown =
    AgentError string string "thrown option"
  | PlainError string string
  | NonError "thrown + string" bool

text \<open>How a call ends for its caller: with a value, or with an exception.\<close>

datatype 'r completion = Returned 'r | Raised thrown

fun instanceofAgentError :: "thrown \<Rightarrow> bool" where
  "instanceofAgentError (AgentError m c d) = True"
| "instanceofAgentError (PlainError n m) = False"
| "instanceofAgentError (NonError s t) = False"

fun instanceofError :: "thrown \<Rightarrow> bool" where
  "instanceofError (AgentError m c d) = True"
| "instanceofError (PlainError n m) = True"
| "instanceofError (NonError s t) = False"

fun truthy :: "thrown \<Rightarrow> bool" where
  "truthy (AgentError m c d) = True"
| "truthy (PlainError n m) = True"
| "truthy (NonError s t) = t"

text \<open>
  \<open>String(v)\<close>. For an error it is \<open>Error.prototype.toString\<close>: the name, the message, or
  both joined by a colon. \<open>cannot_convert\<close> is the \<open>TypeError\<close> it throws for an object
  that has no way to a primitive value.
\<close>

definition Error_toString :: "string \<Rightarrow> string \<Rightarrow> string" where
  "Error_toString name msg =
     (if name = [] then msg else if msg = [] then name else name @ '': '' @ msg)"

definition cannot_convert :: thrown where
  "cannot_convert = PlainError ''TypeError'' ''Cannot convert object to primitive value''"

fun String_of :: "thrown \<Rightarrow> string completion" where
  "String_of (AgentError m c d) = Returned (Error_toString ''AgentError'' m)"
| "String_of (PlainError n m) = Returned (Error_toString n m)"
| "String_of (NonError s t) =
     (case s of Inr str \<Rightarrow> Returned str | Inl x \<Rightarrow> Raised x)"

fun error_code :: "thrown \<Rightarrow> string option" where
  "error_code (AgentError m c d) = Some c"
| "error_code (PlainError n m) = None"
| "error_code (NonError s t) = None"

text \<open>
  \<open>BaseAgent.normalizeError\<close>. Its last \<open>return\<close> evaluates \<open>String(error)\<close>, which can
  throw; the method is called from the \<open>catch\<close> block of \<open>execute\<close>.
\<close>

fun normalizeError :: "thrown \<Rightarrow> thrown completion" where
  "normalizeError (AgentError m c d) = Returned (AgentError m c d)"
| "normalizeError (PlainError n m) =
     Returned (AgentError m ''UNKNOWN_ERROR'' (Some (PlainError n m)))"
| "normalizeError (NonError s t) =
     (case String_of (NonError s t) of
        Returned str \<Rightarrow> Returned (AgentError str ''UNKNOWN_ERROR'' (Some (NonError s t)))
      | Raised x \<Rightarrow> Raised x)"

text \<open>
  The idiom \<open>error instanceof Error ? error : new Error(String(error))\<close> of
  \<open>AgentWorkflow\<close>, which stands in the \<open>catch\<close> blocks of \<open>executeStep\<close> and \<open>execute\<close>.
\<close>

definition asError :: "thrown \<Rightarrow> thrown completion" where
  "asError error =
     (if instanceofError error then Returned error
      else (case String_of error of
              Returned str \<Rightarrow> Returned (PlainError ''Error'' str)
            | Raised x \<Rightarrow> Raised x))"

section \<open>Retry configuration and backoff\<close>

datatype backoff_kind = Linear | Exponential

record retry_config =
  maxAttempts :: int
  delay :: int
  backoff :: "backoff_kind option"
  maxDelay :: "int option"

text \<open>
  \<open>BaseAgent.calculateRetryDelay\<close>. Numbers are integers (milliseconds and attempt
  counts). The method is private and its one caller passes \<open>attempt \<ge> 1\<close>, where
  \<open>Math.pow(2, attempt - 1)\<close> is the integer power below. \<open>retry.maxDelay || delay\<close>
  takes the computed delay when \<open>maxDelay\<close> is falsy: absent, or the number \<open>0\<close>.
\<close>

definition calculateRetryDelay :: "int \<Rightarrow> retry_config \<Rightarrow> int" where
  "calculateRetryDelay attempt retry =
     (if backoff retry = Some Exponential then
        (let d = delay retry * 2 ^ nat (attempt - 1) in
         min d (case maxDelay retry of
                  None \<Rightarrow> d
                | Some m \<Rightarrow> if m = 0 then d else m))
      else delay retry)"

section \<open>Lifecycle events and the event channel\<close>

datatype event_type =
    Agent_start | Agent_complete | Agent_error
  | Step_start | Step_complete | Step_error
  | Workflow_start | Workflow_complete | Workflow_error

record 'd event =
  ev_type :: event_type
  ev_timestamp :: nat
  ev_data :: 'd
  ev_error :: "thrown option"

text \<open>
  A listener is caller-supplied code, called synchronously with the event object. The
  engine puts its own live objects into the event: \<open>data\<close> is the very \<open>stepResult\<close>,
  \<open>agentResult\<close> or workflow result that the engine goes on to test, store and return.
  So a call of a listener has two outcomes the engine can meet later: the payload as
  the listener leaves it, and the exception it throws, if any. A listener is taken to
  reach the engine through the event it is handed and through what it throws, not
  otherwise; and, being synchronous code, to take no time on the clock, which counts
  the milliseconds spent waiting.
  Listeners are registered under the name \<open>'event'\<close> (\<open>onEvent\<close>) or, through the
  inherited \<open>on\<close>, under the name of one event type.
\<close>

type_synonym 'd listener = "'d event \<Rightarrow> 'd \<times> thrown option"

record 'd listeners =
  on_event :: "'d listener list"
  on_type :: "event_type \<Rightarrow> 'd listener list"

text \<open>
  A delivery is one call of one listener: the name it is registered under, its position
  among the listeners of that name, and the event as it was handed to it.
\<close>

datatype channel = On_event | On_type event_type

record 'd delivery =
  dl_channel :: channel
  dl_position :: nat
  dl_event :: "'d event"

text \<open>
  \<open>EventEmitter.emit\<close> for the listeners of one name, from position \<open>i\<close> on. The class
  comes from the package \<open>eventemitter3\<close>, which both engines extend: its \<open>emit\<close> calls
  the listeners one after the other, in registration order, with no exception handler
  around the calls, so the first listener that throws ends the delivery and its
  exception leaves \<open>emit\<close>. The result is the payload as the listeners called have left
  it, the exception, and the deliveries made.
\<close>

fun emit ::
  "channel \<Rightarrow> nat \<Rightarrow> 'd listener list \<Rightarrow> 'd event \<Rightarrow> 'd \<times> thrown option \<times> 'd delivery list" where
  "emit ch i [] e = (ev_data e, None, [])"
| "emit ch i (l # ls) e =
     (case l e of
        (d, Some x) \<Rightarrow> (d, Some x, [\<lparr>dl_channel = ch, dl_position = i, dl_event = e\<rparr>])
      | (d, None) \<Rightarrow>
          (case emit ch (Suc i) ls (e\<lparr>ev_data := d\<rparr>) of
             (d', x, ds) \<Rightarrow> (d', x, \<lparr>dl_channel = ch, dl_position = i, dl_event = e\<rparr> # ds)))"

text \<open>
  \<open>emitEvent\<close>, the same two lines in \<open>BaseAgent\<close> and in \<open>AgentWorkflow\<close>:
  \<open>this.emit('event', event); this.emit(event.type, event)\<close>.
\<close>

definition emitEvent :: "'d listeners \<Rightarrow> 'd event \<Rightarrow> 'd \<times> thrown option \<times> 'd delivery list" where
  "emitEvent ls e =
     (case emit On_event 0 (on_event ls) e of
        (d, Some x, ds) \<Rightarrow> (d, Some x, ds)
      | (d, None, ds) \<Rightarrow>
          (case emit (On_type (ev_type e)) 0 (on_type ls (ev_type e)) (e\<lparr>ev_data := d\<rparr>) of
             (d', x, ds') \<Rightarrow> (d', x, ds @ ds')))"

text \<open>
  The delay of a timer, as Node's \<open>setTimeout\<close> takes it: a delay below 1 or above
  \<open>2^31 - 1\<close> milliseconds is set to 1.
\<close>

definition timer_delay :: "int \<Rightarrow> nat" where
  "timer_delay ms = (if 1 \<le> ms \<and> ms \<le> 2147483647 then nat ms else 1)"

text \<open>
  \<open>Promise.race([fn(), timer])\<close> settles with whichever of the two settles first. On
  a clock that counts milliseconds the work can settle at the very reading at which
  the timer is due; which of the two callbacks Node then runs first depends on the
  order in which the timers involved were created and queued, which the durations do
  not tell. The state carries that one fact about the scheduler (\<open>work_first\<close>), and
  \<open>by_deadline\<close> says whether something that happens at time \<open>t\<close> happens before the
  timer due at \<open>deadline\<close> fires.
\<close>

definition by_deadline :: "bool \<Rightarrow> nat \<Rightarrow> nat \<Rightarrow> bool" where
  "by_deadline work_first deadline t \<longleftrightarrow> t < deadline \<or> (t = deadline \<and> work_first)"

section \<open>Execution context and results\<close>

text \<open>
  \<open>StepResult\<close>. A field the code leaves out (\<open>data\<close> of a failed step) reads as
  \<open>undefined\<close>; \<open>error\<close> is optional. Times are clock readings in milliseconds.
\<close>

record 'a step_result =
  sr_step :: string
  sr_success :: bool
  sr_data :: "'a jsval"
  sr_error :: "thrown option"
  sr_startedAt :: nat
  sr_completedAt :: nat
  sr_duration :: nat

type_synonym 'a metadata = "(string \<times> 'a jsval) list"

record 'a agent_context =
  ctx_id :: string
  ctx_data :: "'a jsval"
  ctx_metadata :: "'a metadata"
  ctx_history :: "'a step_result list"
  ctx_timestamp :: nat

text \<open>The optional argument \<open>Partial<AgentContext>\<close> of \<open>execute\<close>, as far as it is read.\<close>

record 'a partial_context =
  pc_metadata :: "'a metadata option"
  pc_history :: "'a step_result list option"

record 'a agent_result =
  ar_success :: bool
  ar_data :: "'a jsval option"
  ar_error :: "thrown option"
  ar_executionTime :: nat
  ar_metadata :: "'a metadata"

datatype 'a agent_event_data = AgentName string | AgentResultData "'a agent_result"

text \<open>
  \<open>agentResult\<close> as the engine reads it after the listeners have had the event that
  carries it: the payload they leave is the engine's object with what they have done to
  it (a payload of another shape is nothing done to that object).
\<close>

fun agentResult_after :: "'a agent_result \<Rightarrow> 'a agent_event_data \<Rightarrow> 'a agent_result" where
  "agentResult_after r (AgentResultData r') = r'"
| "agentResult_after r (AgentName n) = r"

section \<open>The unit-of-work executor: \<open>BaseAgent\<close>\<close>

text \<open>The constructor's argument, and the configuration it stores:
  \<open>{timeout: 30000, retry: {maxAttempts: 3, delay: 1000, backoff: 'exponential'}, ...config}\<close>.\<close>

record agent_options =
  ao_name :: string
  ao_timeout :: "nat option"
  ao_retry :: "retry_config option"

record agent_config =
  ac_name :: string
  ac_timeout :: nat
  ac_retry :: retry_config

definition new_agent_config :: "agent_options \<Rightarrow> agent_config" where
  "new_agent_config c =
     \<lparr>ac_name = ao_name c,
      ac_timeout = (case ao_timeout c of None \<Rightarrow> 30000 | Some t \<Rightarrow> t),
      ac_retry =
        (case ao_retry c of
           None \<Rightarrow> \<lparr>maxAttempts = 3, delay = 1000, backoff = Some Exponential, maxDelay = None\<rparr>
         | Some r \<Rightarrow> r)\<rparr>"

text \<open>
  An agent: its configuration, its listeners, and what a subclass supplies.

  \<open>run\<close> is the abstract method. It is opaque code that can read and change anything it
  reaches (the world \<open>'w\<close>, which holds every object the caller and the work function
  share); called with the context in a world, it settles after some milliseconds with
  a value or an exception, and leaves a new world. Every call is taken to settle.

  \<open>initialize\<close> is a method a subclass may override (\<open>CRMAgent\<close> does:
  \<open>await this.provider.initialize(); await super.initialize()\<close>). \<open>prepare\<close> is the part of
  an overriding \<open>initialize\<close> that comes before \<open>super.initialize()\<close>: it settles after
  some milliseconds, with nothing or with an exception; for a class that does not
  override the method it is \<open>(0, None)\<close>. It takes no argument and is taken to act on
  the subclass's own resources, not on the objects of the world.

  \<open>validateInput\<close> is a method a subclass may override "to add custom validation"; the
  sample agent of the documentation calls \<open>super.validateInput(input)\<close> and then makes
  its own checks. \<open>added_checks\<close> is that second part: given the input it returns, or
  throws; for a class that does not override the method it throws nothing.

  The milliseconds a call takes are milliseconds spent waiting (for a timer, for I/O):
  code that keeps the thread busy takes no time on this clock.
\<close>

record ('a, 'w) base_agent =
  config :: agent_config
  listeners :: "'a agent_event_data listeners"
  prepare :: "nat \<times> thrown option"
  added_checks :: "'a jsval \<Rightarrow> thrown option"
  run :: "'a agent_context \<Rightarrow> 'w \<Rightarrow> nat \<times> (thrown + 'a jsval) \<times> 'w"

text \<open>One invocation of \<open>run\<close>, as logged: when it started and settled, what it was given,
  and the world it left.\<close>

record ('a, 'w) invocation =
  inv_started :: nat
  inv_settled :: nat
  inv_context :: "'a agent_context"
  inv_world :: 'w

text \<open>
  What changes while an agent executes: the clock, the world, the field
  \<open>this.initialized\<close>; what the scheduler does at a tie (\<open>by_deadline\<close>); and five logs
  kept for the proofs (the events handed to \<open>emitEvent\<close>, the deliveries to listeners,
  the invocations of \<open>run\<close>, the calls of \<open>sleep\<close> with their start time, the timeout
  races with their start time and timeout).
\<close>

record ('a, 'w) agent_state =
  a_clock :: nat
  a_world :: 'w
  a_initialized :: bool
  a_work_first :: bool
  a_events :: "'a agent_event_data event list"
  a_deliveries :: "'a agent_event_data delivery list"
  a_invocations :: "('a, 'w) invocation list"
  a_sleeps :: "(nat \<times> int) list"
  a_races :: "(nat \<times> nat) list"

definition BaseAgent_emitEvent ::
  "('a, 'w) base_agent \<Rightarrow> 'a agent_event_data event \<Rightarrow> ('a, 'w) agent_state \<Rightarrow>
   'a agent_event_data \<times> thrown option \<times> ('a, 'w) agent_state" where
  "BaseAgent_emitEvent ag e st =
     (case emitEvent (listeners ag) e of
        (d, x, ds) \<Rightarrow>
          (d, x, st\<lparr>a_events := a_events st @ [e], a_deliveries := a_deliveries st @ ds\<rparr>))"

text \<open>\<open>BaseAgent.initialize\<close>, the method of the base class.\<close>

definition BaseAgent_initialize ::
  "('a, 'w) base_agent \<Rightarrow> ('a, 'w) agent_state \<Rightarrow> thrown option \<times> ('a, 'w) agent_state" where
  "BaseAgent_initialize ag st =
     snd (BaseAgent_emitEvent ag
       \<lparr>ev_type = Agent_start, ev_timestamp = a_clock st,
        ev_data = AgentName (ac_name (config ag)), ev_error = None\<rparr>
       (st\<lparr>a_initialized := True\<rparr>))"

text \<open>\<open>this.initialize()\<close>, as dispatched: the subclass's part, then the base method.\<close>

definition initialize ::
  "('a, 'w) base_agent \<Rightarrow> ('a, 'w) agent_state \<Rightarrow> thrown option \<times> ('a, 'w) agent_state" where
  "initialize ag st =
     (case prepare ag of
        (d, Some x) \<Rightarrow> (Some x, st\<lparr>a_clock := a_clock st + d\<rparr>)
      | (d, None) \<Rightarrow> BaseAgent_initialize ag (st\<lparr>a_clock := a_clock st + d\<rparr>))"

text \<open>\<open>BaseAgent.validateInput\<close>, the method of the base class.\<close>

fun BaseAgent_validateInput :: "'a jsval \<Rightarrow> thrown + unit" where
  "BaseAgent_validateInput Null =
     Inl (AgentError ''Input cannot be null or undefined'' ''INVALID_INPUT'' None)"
| "BaseAgent_validateInput Undefined =
     Inl (AgentError ''Input cannot be null or undefined'' ''INVALID_INPUT'' None)"
| "BaseAgent_validateInput (Val v) = Inr ()"

text \<open>\<open>this.validateInput(input)\<close>, as dispatched: the base method, then the subclass's checks.\<close>

definition validateInput :: "('a, 'w) base_agent \<Rightarrow> 'a jsval \<Rightarrow> thrown + unit" where
  "validateInput ag input =
     (case BaseAgent_validateInput input of
        Inl error \<Rightarrow> Inl error
      | Inr u \<Rightarrow> (case added_checks ag input of Some x \<Rightarrow> Inl x | None \<Rightarrow> Inr ()))"

text \<open>\<open>sleep(ms)\<close>: a promise that a timer of \<open>ms\<close> milliseconds resolves.\<close>

definition sleep :: "int \<Rightarrow> ('a, 'w) agent_state \<Rightarrow> ('a, 'w) agent_state" where
  "sleep ms st = st\<lparr>a_clock := a_clock st + timer_delay ms, a_sleeps := a_sleeps st @ [(a_clock st, ms)]\<rparr>"

text \<open>
  One call of \<open>this.run(context)\<close> with its \<open>await\<close>: the clock moves by the time the
  call takes, the world becomes the one the call leaves, the call is logged.
\<close>

definition invoke_run ::
  "('a, 'w) base_agent \<Rightarrow> 'a agent_context \<Rightarrow> ('a, 'w) agent_state \<Rightarrow>
   (thrown + 'a jsval) \<times> ('a, 'w) agent_state" where
  "invoke_run ag ctx st =
     (case run ag ctx (a_world st) of
        (d, out, w') \<Rightarrow>
          (out, st\<lparr>a_clock := a_clock st + d, a_world := w',
                   a_invocations := a_invocations st @
                     [\<lparr>inv_started = a_clock st, inv_settled = a_clock st + d,
                       inv_context = ctx, inv_world = w'\<rparr>]\<rparr>))"

text \<open>\<open>lastError || new AgentError('Execution failed', 'EXECUTION_FAILED')\<close>.\<close>

definition lastError_or_generic :: "thrown option \<Rightarrow> thrown" where
  "lastError_or_generic lastError =
     (case lastError of
        None \<Rightarrow> AgentError ''Execution failed'' ''EXECUTION_FAILED'' None
      | Some e \<Rightarrow> if truthy e then e else AgentError ''Execution failed'' ''EXECUTION_FAILED'' None)"

text \<open>
  The \<open>for\<close> loop of \<open>executeWithRetry\<close>, from the attempt number and \<open>lastError\<close> it has
  reached.
\<close>

function retry_loop ::
  "('a, 'w) base_agent \<Rightarrow> 'a agent_context \<Rightarrow> int \<Rightarrow> thrown option \<Rightarrow> ('a, 'w) agent_state \<Rightarrow>
   (thrown + 'a jsval) \<times> ('a, 'w) agent_state" where
  "retry_loop ag ctx attempt lastError st =
     (if attempt \<le> maxAttempts (ac_retry (config ag)) then
        (case invoke_run ag ctx st of
           (Inr v, st1) \<Rightarrow> (Inr v, st1)
         | (Inl error, st1) \<Rightarrow>
             if attempt < maxAttempts (ac_retry (config ag)) then
               retry_loop ag ctx (attempt + 1) (Some error)
                 (sleep (calculateRetryDelay attempt (ac_retry (config ag))) st1)
             else retry_loop ag ctx (attempt + 1) (Some error) st1)
      else (Inl (lastError_or_generic lastError), st))"
  by pat_completeness auto
termination
  by (relation "measure (\<lambda>(ag, ctx, attempt, lastError, st).
        nat (maxAttempts (ac_retry (config ag)) + 1 - attempt))") auto

declare retry_loop.simps [simp del]

definition executeWithRetry ::
  "('a, 'w) base_agent \<Rightarrow> 'a agent_context \<Rightarrow> ('a, 'w) agent_state \<Rightarrow>
   (thrown + 'a jsval) \<times> ('a, 'w) agent_state" where
  "executeWithRetry ag ctx st = retry_loop ag ctx 1 None st"

text \<open>
  For stating what the attempts do: the world after \<open>n\<close> invocations of \<open>run\<close> in a row,
  and the outcome of the \<open>k\<close>-th of them (counted from 1). The loop's sleeps lie between
  the invocations and leave the world alone.
\<close>

fun world_after :: "('a, 'w) base_agent \<Rightarrow> 'a agent_context \<Rightarrow> 'w \<Rightarrow> nat \<Rightarrow> 'w" where
  "world_after ag ctx w 0 = w"
| "world_after ag ctx w (Suc n) = snd (snd (run ag ctx (world_after ag ctx w n)))"

definition attempt_outcome ::
  "('a, 'w) base_agent \<Rightarrow> 'a agent_context \<Rightarrow> 'w \<Rightarrow> nat \<Rightarrow> thrown + 'a jsval" where
  "attempt_outcome ag ctx w k = fst (snd (run ag ctx (world_after ag ctx w (k - 1))))"

definition invocations_during :: "('a, 'w) agent_state \<Rightarrow> ('a, 'w) agent_state \<Rightarrow> nat" where
  "invocations_during st st' = length (a_invocations st') - length (a_invocations st)"

text \<open>
  \<open>Promise.race([fn(), timer])\<close>. The work \<open>fn\<close> and a timer of \<open>timeout\<close> milliseconds
  start together; the work wins when it settles before the timer fires. When the timer
  wins, the race rejects with \<open>TIMEOUT\<close> and nothing cancels the work: what the caller
  can observe at that moment is the state at the deadline, \<open>abandoned_at\<close>, in which an
  invocation of \<open>run\<close> has changed the world once it has settled.
\<close>

definition abandoned_at ::
  "nat \<Rightarrow> ('a, 'w) agent_state \<Rightarrow> ('a, 'w) agent_state \<Rightarrow> ('a, 'w) agent_state" where
  "abandoned_at deadline st st' =
     st'\<lparr>a_clock := deadline,
         a_world :=
           (case filter (\<lambda>i. by_deadline (a_work_first st) deadline (inv_settled i))
                   (drop (length (a_invocations st)) (a_invocations st')) of
              [] \<Rightarrow> a_world st
            | i # is \<Rightarrow> inv_world (last (i # is))),
         a_invocations :=
           a_invocations st @
           filter (\<lambda>i. by_deadline (a_work_first st) deadline (inv_started i))
             (drop (length (a_invocations st)) (a_invocations st')),
         a_sleeps :=
           a_sleeps st @
           filter (\<lambda>(t, ms). by_deadline (a_work_first st) deadline t)
             (drop (length (a_sleeps st)) (a_sleeps st'))\<rparr>"

definition BaseAgent_executeWithTimeout ::
  "(('a, 'w) agent_state \<Rightarrow> (thrown + 'r) \<times> ('a, 'w) agent_state) \<Rightarrow> nat \<Rightarrow>
   ('a, 'w) agent_state \<Rightarrow> (thrown + 'r) \<times> ('a, 'w) agent_state" where
  "BaseAgent_executeWithTimeout fn timeout st =
     (case fn st of
        (r, st') \<Rightarrow>
          if by_deadline (a_work_first st) (a_clock st + timer_delay (int timeout)) (a_clock st') then
            (r, st'\<lparr>a_races := a_races st' @ [(a_clock st, timeout)]\<rparr>)
          else (Inl (AgentError ''Execution timeout'' ''TIMEOUT'' None),
                (abandoned_at (a_clock st + timer_delay (int timeout)) st st')
                  \<lparr>a_races := a_races st' @ [(a_clock st, timeout)]\<rparr>))"

text \<open>
  The \<open>try\<close> block of \<open>BaseAgent.execute\<close>: \<open>Inl\<close> is what it throws into the \<open>catch\<close>. It
  returns \<open>agentResult\<close>, the object the listeners of \<open>agent:complete\<close> have been handed.
\<close>

definition BaseAgent_execute_try ::
  "('a, 'w) base_agent \<Rightarrow> 'a jsval \<Rightarrow> 'a agent_context \<Rightarrow> nat \<Rightarrow> ('a, 'w) agent_state \<Rightarrow>
   (thrown + 'a agent_result) \<times> ('a, 'w) agent_state" where
  "BaseAgent_execute_try ag input executionContext startTime st =
     (case validateInput ag input of
        Inl error \<Rightarrow> (Inl error, st)
      | Inr u \<Rightarrow>
          (case BaseAgent_executeWithTimeout (executeWithRetry ag executionContext)
                  (ac_timeout (config ag)) st of
             (Inl error, st1) \<Rightarrow> (Inl error, st1)
           | (Inr result, st1) \<Rightarrow>
               (let agentResult =
                      \<lparr>ar_success = True, ar_data = Some result, ar_error = None,
                       ar_executionTime = a_clock st1 - startTime,
                       ar_metadata = ctx_metadata executionContext\<rparr>
                in case BaseAgent_emitEvent ag
                          \<lparr>ev_type = Agent_complete, ev_timestamp = a_clock st1,
                           ev_data = AgentResultData agentResult, ev_error = None\<rparr> st1 of
                     (d, Some x, st2) \<Rightarrow> (Inl x, st2)
                   | (d, None, st2) \<Rightarrow> (Inr (agentResult_after agentResult d), st2))))"

text \<open>
  The \<open>catch\<close> block of \<open>BaseAgent.execute\<close>. Nothing catches what is thrown here: an
  exception of \<open>normalizeError\<close> or of a listener of \<open>agent:error\<close> leaves \<open>execute\<close>.
\<close>

definition BaseAgent_execute_catch ::
  "('a, 'w) base_agent \<Rightarrow> 'a agent_context \<Rightarrow> nat \<Rightarrow> thrown \<Rightarrow> ('a, 'w) agent_state \<Rightarrow>
   'a agent_result completion \<times> ('a, 'w) agent_state" where
  "BaseAgent_execute_catch ag executionContext startTime error st =
     (case normalizeError error of
        Raised x \<Rightarrow> (Raised x, st)
      | Returned agentError \<Rightarrow>
          (let agentResult =
                 \<lparr>ar_success = False, ar_data = None, ar_error = Some agentError,
                  ar_executionTime = a_clock st - startTime,
                  ar_metadata = ctx_metadata executionContext\<rparr>
           in case BaseAgent_emitEvent ag
                     \<lparr>ev_type = Agent_error, ev_timestamp = a_clock st,
                      ev_data = AgentResultData agentResult, ev_error = Some agentError\<rparr> st of
                (d, Some x, st1) \<Rightarrow> (Raised x, st1)
              | (d, None, st1) \<Rightarrow> (Returned (agentResult_after agentResult d), st1)))"

text \<open>\<open>if (!this.initialized) { await this.initialize() }\<close>, which stands before the \<open>try\<close>.\<close>

definition ensure_initialized ::
  "('a, 'w) base_agent \<Rightarrow> ('a, 'w) agent_state \<Rightarrow> thrown option \<times> ('a, 'w) agent_state" where
  "ensure_initialized ag st = (if \<not> a_initialized st then initialize ag st else (None, st))"

text \<open>
  The object literal \<open>executionContext\<close>. \<open>cid\<close> is the identifier \<open>generateContextId\<close>
  returns (it draws on \<open>Math.random\<close>). The field \<open>data\<close> is \<open>input\<close>, the very value the
  caller passed.
\<close>

definition new_executionContext ::
  "'a jsval \<Rightarrow> 'a partial_context option \<Rightarrow> string \<Rightarrow> nat \<Rightarrow> 'a agent_context" where
  "new_executionContext input context cid now =
     \<lparr>ctx_id = cid, ctx_data = input,
      ctx_metadata =
        (case context of
           None \<Rightarrow> []
         | Some c \<Rightarrow> (case pc_metadata c of None \<Rightarrow> [] | Some m \<Rightarrow> m)),
      ctx_history =
        (case context of
           None \<Rightarrow> []
         | Some c \<Rightarrow> (case pc_history c of None \<Rightarrow> [] | Some h \<Rightarrow> h)),
      ctx_timestamp = now\<rparr>"

text \<open>\<open>BaseAgent.execute(input, context?)\<close>.\<close>

definition BaseAgent_execute ::
  "('a, 'w) base_agent \<Rightarrow> 'a jsval \<Rightarrow> 'a partial_context option \<Rightarrow> string \<Rightarrow>
   ('a, 'w) agent_state \<Rightarrow> 'a agent_result completion \<times> ('a, 'w) agent_state" where
  "BaseAgent_execute ag input context cid st =
     (case ensure_initialized ag st of
        (Some x, st0) \<Rightarrow> (Raised x, st0)
      | (None, st0) \<Rightarrow>
          (let executionContext = new_executionContext input context cid (a_clock st0);
               startTime = a_clock st0
           in case BaseAgent_execute_try ag input executionContext startTime st0 of
                (Inr agentResult, st1) \<Rightarrow> (Returned agentResult, st1)
              | (Inl error, st1) \<Rightarrow>
                  BaseAgent_execute_catch ag executionContext startTime error st1))"

section \<open>The step sequencer: \<open>AgentWorkflow\<close>\<close>

datatype on_error = Stop | Continue | Rollback

text \<open>The constructor's argument, and the configuration it stores:
  \<open>{timeout: 300000, onError: 'stop', ...config}\<close>.\<close>

record workflow_options =
  wo_name :: string
  wo_timeout :: "nat option"
  wo_onError :: "on_error option"

record workflow_config =
  wc_name :: string
  wc_timeout :: nat
  wc_onError :: on_error

definition new_config :: "workflow_options \<Rightarrow> workflow_config" where
  "new_config c =
     \<lparr>wc_name = wo_name c,
      wc_timeout = (case wo_timeout c of None \<Rightarrow> 300000 | Some t \<Rightarrow> t),
      wc_onError = (case wo_onError c of None \<Rightarrow> Stop | Some s \<Rightarrow> s)\<rparr>"

text \<open>
  \<open>WorkflowStep\<close>. Handler, condition and error hook are caller-supplied code, awaited by
  the engine. Each is called with \<open>this.context\<close>, the engine's own live object, so a
  call has three outcomes: the milliseconds after which it settles (spent waiting, as
  for \<open>run\<close>), the value or exception it settles with (the hook: nothing or an
  exception), and the context as it leaves it. Every call is taken to settle, and to
  reach the engine through the context it is handed and through what it returns or
  throws, not otherwise (it does not add steps to the running workflow, say).
\<close>

type_synonym 'a handler = "'a agent_context \<Rightarrow> nat \<times> (thrown + 'a jsval) \<times> 'a agent_context"
type_synonym 'a condition = "'a agent_context \<Rightarrow> nat \<times> (thrown + bool) \<times> 'a agent_context"
type_synonym 'a error_hook =
  "thrown \<Rightarrow> 'a agent_context \<Rightarrow> nat \<times> thrown option \<times> 'a agent_context"

record 'a workflow_step =
  ws_name :: string
  ws_handler :: "'a handler"
  ws_condition :: "'a condition option"
  ws_onError :: "'a error_hook option"

record 'a workflow_result =
  wr_success :: bool
  wr_data :: "'a jsval option"
  wr_steps :: "'a step_result list"
  wr_error :: "thrown option"
  wr_executionTime :: nat

datatype 'a workflow_event_data =
    WorkflowInfo string nat
  | StepName string
  | StepResultData "'a step_result"
  | WorkflowResultData "'a workflow_result"

text \<open>
  \<open>stepResult\<close> and the workflow's \<open>result\<close> as the engine reads them after the listeners
  have had the event that carries them.
\<close>

fun stepResult_after :: "'a step_result \<Rightarrow> 'a workflow_event_data \<Rightarrow> 'a step_result" where
  "stepResult_after r (StepResultData r') = r'"
| "stepResult_after r (WorkflowInfo n k) = r"
| "stepResult_after r (StepName n) = r"
| "stepResult_after r (WorkflowResultData w) = r"

fun result_after :: "'a workflow_result \<Rightarrow> 'a workflow_event_data \<Rightarrow> 'a workflow_result" where
  "result_after r (WorkflowResultData r') = r'"
| "result_after r (WorkflowInfo n k) = r"
| "result_after r (StepName n) = r"
| "result_after r (StepResultData s) = r"

record 'a agent_workflow =
  wf_config :: workflow_config
  wf_steps :: "'a workflow_step list"
  wf_listeners :: "'a workflow_event_data listeners"

text \<open>\<open>step(name, handler, options?)\<close> and \<open>when(condition, name, handler)\<close> (here \<open>when_step\<close>).\<close>

definition step ::
  "string \<Rightarrow> 'a handler \<Rightarrow> 'a condition option \<Rightarrow> 'a error_hook option \<Rightarrow>
   'a agent_workflow \<Rightarrow> 'a agent_workflow" where
  "step name handler condition onError flow =
     flow\<lparr>wf_steps := wf_steps flow @
          [\<lparr>ws_name = name, ws_handler = handler, ws_condition = condition,
            ws_onError = onError\<rparr>]\<rparr>"

definition when_step ::
  "'a condition \<Rightarrow> string \<Rightarrow> 'a handler \<Rightarrow> 'a agent_workflow \<Rightarrow> 'a agent_workflow" where
  "when_step condition name handler flow = step name handler (Some condition) None flow"

datatype console_line = Warn string | ErrorLine string thrown

text \<open>
  What changes while a workflow executes: the clock, the field \<open>this.context\<close>, the local
  array \<open>stepResults\<close>; what the scheduler does at a tie (\<open>by_deadline\<close>); and five logs
  kept for the proofs (the events handed to \<open>emitEvent\<close>, the deliveries to listeners,
  the console lines, the handler invocations with their start time, the timeout races
  with their start time and timeout).
\<close>

record 'a workflow_state =
  w_clock :: nat
  w_context :: "'a agent_context"
  w_stepResults :: "'a step_result list"
  w_work_first :: bool
  w_events :: "'a workflow_event_data event list"
  w_deliveries :: "'a workflow_event_data delivery list"
  w_console :: "(nat \<times> console_line) list"
  w_invoked :: "(nat \<times> string) list"
  w_races :: "(nat \<times> nat) list"

definition AgentWorkflow_emitEvent ::
  "'a agent_workflow \<Rightarrow> 'a workflow_event_data event \<Rightarrow> 'a workflow_state \<Rightarrow>
   'a workflow_event_data \<times> thrown option \<times> 'a workflow_state" where
  "AgentWorkflow_emitEvent flow e st =
     (case emitEvent (wf_listeners flow) e of
        (d, x, ds) \<Rightarrow>
          (d, x, st\<lparr>w_events := w_events st @ [e], w_deliveries := w_deliveries st @ ds\<rparr>))"

fun nullish :: "'a jsval \<Rightarrow> bool" where
  "nullish Null = True"
| "nullish Undefined = True"
| "nullish (Val v) = False"

text \<open>
  The guard \<open>if (step.condition) { shouldExecute = await step.condition(context) ... }\<close>:
  whether the step goes on to its handler (it does when it has no condition), or what
  the condition threw.
\<close>

definition check_condition ::
  "'a workflow_step \<Rightarrow> 'a workflow_state \<Rightarrow> (thrown + bool) \<times> 'a workflow_state" where
  "check_condition stp st =
     (case ws_condition stp of
        None \<Rightarrow> (Inr True, st)
      | Some condition \<Rightarrow>
          (case condition (w_context st) of
             (d, r, ctx') \<Rightarrow> (r, st\<lparr>w_clock := w_clock st + d, w_context := ctx'\<rparr>)))"

text \<open>
  The rest of the \<open>try\<close> block of \<open>executeStep\<close>, from \<open>await step.handler(context)\<close>. It
  returns \<open>stepResult\<close>, the object the listeners of \<open>step:complete\<close> have been handed.
\<close>

definition executeStep_handler ::
  "'a agent_workflow \<Rightarrow> 'a workflow_step \<Rightarrow> nat \<Rightarrow> 'a workflow_state \<Rightarrow>
   (thrown + 'a step_result) \<times> 'a workflow_state" where
  "executeStep_handler flow stp startTime st =
     (case ws_handler stp (w_context st) of
        (d, r, ctx') \<Rightarrow>
          (let st1 = st\<lparr>w_clock := w_clock st + d, w_context := ctx',
                        w_invoked := w_invoked st @ [(w_clock st, ws_name stp)]\<rparr>
           in case r of
                Inl x \<Rightarrow> (Inl x, st1)
              | Inr result \<Rightarrow>
                  (let st2 = (if \<not> nullish result
                              then st1\<lparr>w_context := (w_context st1)\<lparr>ctx_data := result\<rparr>\<rparr>
                              else st1);
                       stepResult =
                         \<lparr>sr_step = ws_name stp, sr_success = True, sr_data = result,
                          sr_error = None, sr_startedAt = startTime,
                          sr_completedAt = w_clock st2,
                          sr_duration = w_clock st2 - startTime\<rparr>
                   in case AgentWorkflow_emitEvent flow
                             \<lparr>ev_type = Step_complete, ev_timestamp = w_clock st2,
                              ev_data = StepResultData stepResult, ev_error = None\<rparr> st2 of
                        (p, Some x, st3) \<Rightarrow> (Inl x, st3)
                      | (p, None, st3) \<Rightarrow> (Inr (stepResult_after stepResult p), st3))))"

text \<open>The \<open>try\<close> block of \<open>executeStep\<close>: \<open>Inl\<close> is what it throws into the \<open>catch\<close>.\<close>

definition executeStep_try ::
  "'a agent_workflow \<Rightarrow> 'a workflow_step \<Rightarrow> nat \<Rightarrow> 'a workflow_state \<Rightarrow>
   (thrown + 'a step_result) \<times> 'a workflow_state" where
  "executeStep_try flow stp startTime st =
     (case check_condition stp st of
        (Inl x, st1) \<Rightarrow> (Inl x, st1)
      | (Inr shouldExecute, st1) \<Rightarrow>
          if \<not> shouldExecute then
            (Inr \<lparr>sr_step = ws_name stp, sr_success = True, sr_data = Null,
                  sr_error = None, sr_startedAt = startTime,
                  sr_completedAt = w_clock st1,
                  sr_duration = w_clock st1 - startTime\<rparr>, st1)
          else executeStep_handler flow stp startTime st1)"

text \<open>
  The error hook of a step, as the \<open>catch\<close> block calls it: its exception is caught and
  written to the console.
\<close>

definition call_onError ::
  "'a workflow_step \<Rightarrow> thrown \<Rightarrow> 'a workflow_state \<Rightarrow> 'a workflow_state" where
  "call_onError stp stepError st =
     (case ws_onError stp of
        None \<Rightarrow> st
      | Some hook \<Rightarrow>
          (case hook stepError (w_context st) of
             (d, None, ctx') \<Rightarrow> st\<lparr>w_clock := w_clock st + d, w_context := ctx'\<rparr>
           | (d, Some handlerError, ctx') \<Rightarrow>
               st\<lparr>w_clock := w_clock st + d, w_context := ctx',
                  w_console := w_console st @
                    [(w_clock st + d, ErrorLine ''Error handler failed:'' handlerError)]\<rparr>))"

text \<open>
  The \<open>catch\<close> block of \<open>executeStep\<close>. Nothing catches what is thrown here: an exception
  of \<open>String(error)\<close> or of a listener of \<open>step:error\<close> leaves \<open>executeStep\<close>.
\<close>

definition executeStep_catch ::
  "'a agent_workflow \<Rightarrow> 'a workflow_step \<Rightarrow> nat \<Rightarrow> thrown \<Rightarrow> 'a workflow_state \<Rightarrow>
   'a step_result completion \<times> 'a workflow_state" where
  "executeStep_catch flow stp startTime error st =
     (case asError error of
        Raised x \<Rightarrow> (Raised x, st)
      | Returned stepError \<Rightarrow>
          (let st1 = call_onError stp stepError st;
               stepResult =
                 \<lparr>sr_step = ws_name stp, sr_success = False, sr_data = Undefined,
                  sr_error = Some stepError, sr_startedAt = startTime,
                  sr_completedAt = w_clock st1, sr_duration = w_clock st1 - startTime\<rparr>
           in case AgentWorkflow_emitEvent flow
                     \<lparr>ev_type = Step_error, ev_timestamp = w_clock st1,
                      ev_data = StepResultData stepResult, ev_error = Some stepError\<rparr> st1 of
                (p, Some x, st2) \<Rightarrow> (Raised x, st2)
              | (p, None, st2) \<Rightarrow> (Returned (stepResult_after stepResult p), st2)))"

text \<open>\<open>AgentWorkflow.executeStep\<close>. The event \<open>step:start\<close> is emitted before the \<open>try\<close>.\<close>

definition executeStep ::
  "'a agent_workflow \<Rightarrow> 'a workflow_step \<Rightarrow> 'a workflow_state \<Rightarrow>
   'a step_result completion \<times> 'a workflow_state" where
  "executeStep flow stp st =
     (let startTime = w_clock st
      in case AgentWorkflow_emitEvent flow
                \<lparr>ev_type = Step_start, ev_timestamp = w_clock st,
                 ev_data = StepName (ws_name stp), ev_error = None\<rparr> st of
           (p, Some x, st1) \<Rightarrow> (Raised x, st1)
         | (p, None, st1) \<Rightarrow>
             (case executeStep_try flow stp startTime st1 of
                (Inr stepResult, st2) \<Rightarrow> (Returned stepResult, st2)
              | (Inl error, st2) \<Rightarrow> executeStep_catch flow stp startTime error st2))"

text \<open>\<open>AgentWorkflow.rollback\<close>: a warning on the console, nothing else.\<close>

definition rollback :: "'a step_result list \<Rightarrow> 'a workflow_state \<Rightarrow> 'a workflow_state" where
  "rollback steps st =
     st\<lparr>w_console := w_console st @ [(w_clock st, Warn ''Rollback not implemented yet'')]\<rparr>"

text \<open>\<open>throw stepResult.error\<close>: the field is optional, and \<open>throw undefined\<close> throws a
  value that is no \<open>Error\<close>.\<close>

definition thrown_error :: "'a step_result \<Rightarrow> thrown" where
  "thrown_error r =
     (case sr_error r of Some e \<Rightarrow> e | None \<Rightarrow> NonError (Inr ''undefined'') False)"

text \<open>
  The \<open>for (const step of this.steps)\<close> loop that \<open>execute\<close> hands to
  \<open>executeWithTimeout\<close>, over the steps still to run: \<open>None\<close> when the loop ends, \<open>Some x\<close>
  when it throws \<open>x\<close>.
\<close>

fun runSteps ::
  "'a agent_workflow \<Rightarrow> 'a workflow_step list \<Rightarrow> 'a workflow_state \<Rightarrow>
   thrown option \<times> 'a workflow_state" where
  "runSteps flow [] st = (None, st)"
| "runSteps flow (stp # rest) st =
     (case executeStep flow stp st of
        (Raised x, st1) \<Rightarrow> (Some x, st1)
      | (Returned stepResult, st1) \<Rightarrow>
          (let st2 = st1\<lparr>w_stepResults := w_stepResults st1 @ [stepResult],
                         w_context := (w_context st1)
                           \<lparr>ctx_history := ctx_history (w_context st1) @ [stepResult]\<rparr>\<rparr>
           in if \<not> sr_success stepResult then
                (if wc_onError (wf_config flow) = Stop then
                   (Some (thrown_error stepResult), st2)
                 else if wc_onError (wf_config flow) = Rollback then
                   (Some (thrown_error stepResult), rollback (w_stepResults st2) st2)
                 else runSteps flow rest st2)
              else runSteps flow rest st2))"

text \<open>
  \<open>Promise.race([fn(), timer])\<close> of \<open>AgentWorkflow\<close>, as in \<open>BaseAgent\<close>. When the timer
  wins, the loop goes on unobserved: \<open>overtaken_at\<close> keeps of its state what had happened
  when the timer fired (step results, events, deliveries, console lines and handler
  invocations carry their time). The context is left as the loop leaves it; \<open>execute\<close>
  does not read it after a timeout.
\<close>

definition overtaken_at :: "nat \<Rightarrow> 'a workflow_state \<Rightarrow> 'a workflow_state" where
  "overtaken_at deadline st' =
     st'\<lparr>w_clock := deadline,
         w_stepResults :=
           filter (\<lambda>r. by_deadline (w_work_first st') deadline (sr_completedAt r))
             (w_stepResults st'),
         w_events :=
           filter (\<lambda>e. by_deadline (w_work_first st') deadline (ev_timestamp e)) (w_events st'),
         w_deliveries :=
           filter (\<lambda>d. by_deadline (w_work_first st') deadline (ev_timestamp (dl_event d)))
             (w_deliveries st'),
         w_console :=
           filter (\<lambda>(t, l). by_deadline (w_work_first st') deadline t) (w_console st'),
         w_invoked :=
           filter (\<lambda>(t, n). by_deadline (w_work_first st') deadline t) (w_invoked st')\<rparr>"

definition AgentWorkflow_executeWithTimeout ::
  "('a workflow_state \<Rightarrow> thrown option \<times> 'a workflow_state) \<Rightarrow> nat \<Rightarrow>
   'a workflow_state \<Rightarrow> thrown option \<times> 'a workflow_state" where
  "AgentWorkflow_executeWithTimeout fn timeout st =
     (case fn st of
        (r, st') \<Rightarrow>
          if by_deadline (w_work_first st) (w_clock st + timer_delay (int timeout)) (w_clock st') then
            (r, st'\<lparr>w_races := w_races st' @ [(w_clock st, timeout)]\<rparr>)
          else (Some (AgentError ''Workflow timeout'' ''TIMEOUT'' None),
                (overtaken_at (w_clock st + timer_delay (int timeout)) st')
                  \<lparr>w_races := w_races st' @ [(w_clock st, timeout)]\<rparr>))"

text \<open>
  The \<open>try\<close> block of \<open>AgentWorkflow.execute\<close> after its \<open>await\<close>: the result is built
  and \<open>workflow:complete\<close> emitted. It returns \<open>result\<close>, the object the listeners have
  been handed.
\<close>

definition AgentWorkflow_execute_complete ::
  "'a agent_workflow \<Rightarrow> nat \<Rightarrow> 'a workflow_state \<Rightarrow>
   (thrown + 'a workflow_result) \<times> 'a workflow_state" where
  "AgentWorkflow_execute_complete flow startTime st =
     (let result =
            \<lparr>wr_success = True, wr_data = Some (ctx_data (w_context st)),
             wr_steps = w_stepResults st, wr_error = None,
             wr_executionTime = w_clock st - startTime\<rparr>
      in case AgentWorkflow_emitEvent flow
                \<lparr>ev_type = Workflow_complete, ev_timestamp = w_clock st,
                 ev_data = WorkflowResultData result, ev_error = None\<rparr> st of
           (p, Some x, st1) \<Rightarrow> (Inl x, st1)
         | (p, None, st1) \<Rightarrow> (Inr (result_after result p), st1))"

text \<open>The \<open>try\<close> block of \<open>AgentWorkflow.execute\<close>: \<open>Inl\<close> is what it throws into the \<open>catch\<close>.\<close>

definition AgentWorkflow_execute_try ::
  "'a agent_workflow \<Rightarrow> nat \<Rightarrow> 'a workflow_state \<Rightarrow>
   (thrown + 'a workflow_result) \<times> 'a workflow_state" where
  "AgentWorkflow_execute_try flow startTime st =
     (case AgentWorkflow_executeWithTimeout (runSteps flow (wf_steps flow))
             (wc_timeout (wf_config flow)) st of
        (Some x, st1) \<Rightarrow> (Inl x, st1)
      | (None, st1) \<Rightarrow> AgentWorkflow_execute_complete flow startTime st1)"

text \<open>
  The \<open>catch\<close> block of \<open>AgentWorkflow.execute\<close>. Nothing catches what is thrown here: an
  exception of \<open>String(error)\<close> or of a listener of \<open>workflow:error\<close> leaves \<open>execute\<close>.
\<close>

definition AgentWorkflow_execute_catch ::
  "'a agent_workflow \<Rightarrow> nat \<Rightarrow> thrown \<Rightarrow> 'a workflow_state \<Rightarrow>
   'a workflow_result completion \<times> 'a workflow_state" where
  "AgentWorkflow_execute_catch flow startTime error st =
     (case asError error of
        Raised x \<Rightarrow> (Raised x, st)
      | Returned workflowError \<Rightarrow>
          (let result =
                 \<lparr>wr_success = False, wr_data = None, wr_steps = w_stepResults st,
                  wr_error = Some workflowError, wr_executionTime = w_clock st - startTime\<rparr>
           in case AgentWorkflow_emitEvent flow
                     \<lparr>ev_type = Workflow_error, ev_timestamp = w_clock st,
                      ev_data = WorkflowResultData result, ev_error = Some workflowError\<rparr> st of
                (p, Some x, st1) \<Rightarrow> (Raised x, st1)
              | (p, None, st1) \<Rightarrow> (Returned (result_after result p), st1)))"

text \<open>
  The first statements of \<open>AgentWorkflow.execute\<close>, called when the clock reads \<open>now\<close>
  under a scheduler that decides ties as \<open>work_first\<close> says: the context is seeded (\<open>wid\<close>
  is the identifier \<open>generateWorkflowId\<close> returns), \<open>stepResults\<close> is empty, and so are the
  logs, which are the logs of this run.
\<close>

definition seed_state ::
  "'a jsval \<Rightarrow> 'a partial_context option \<Rightarrow> string \<Rightarrow> nat \<Rightarrow> bool \<Rightarrow> 'a workflow_state" where
  "seed_state input initialContext wid now work_first =
     \<lparr>w_clock = now,
      w_context =
        \<lparr>ctx_id = wid, ctx_data = input,
         ctx_metadata =
           (case initialContext of
              None \<Rightarrow> []
            | Some c \<Rightarrow> (case pc_metadata c of None \<Rightarrow> [] | Some m \<Rightarrow> m)),
         ctx_history = [], ctx_timestamp = now\<rparr>,
      w_stepResults = [], w_work_first = work_first, w_events = [], w_deliveries = [],
      w_console = [], w_invoked = [], w_races = []\<rparr>"

text \<open>The emission of \<open>workflow:start\<close>, before the \<open>try\<close>.\<close>

definition emit_start ::
  "'a agent_workflow \<Rightarrow> 'a workflow_state \<Rightarrow> thrown option \<times> 'a workflow_state" where
  "emit_start flow st =
     snd (AgentWorkflow_emitEvent flow
       \<lparr>ev_type = Workflow_start, ev_timestamp = w_clock st,
        ev_data = WorkflowInfo (wc_name (wf_config flow)) (length (wf_steps flow)),
        ev_error = None\<rparr> st)"

text \<open>\<open>AgentWorkflow.execute(input, initialContext?)\<close>.\<close>

definition AgentWorkflow_execute ::
  "'a agent_workflow \<Rightarrow> 'a jsval \<Rightarrow> 'a partial_context option \<Rightarrow> string \<Rightarrow> nat \<Rightarrow> bool \<Rightarrow>
   'a workflow_result completion \<times> 'a workflow_state" where
  "AgentWorkflow_execute flow input initialContext wid now work_first =
     (let startTime = now
      in case emit_start flow (seed_state input initialContext wid now work_first) of
           (Some x, st1) \<Rightarrow> (Raised x, st1)
         | (None, st1) \<Rightarrow>
             (case AgentWorkflow_execute_try flow startTime st1 of
                (Inr result, st2) \<Rightarrow> (Returned result, st2)
              | (Inl error, st2) \<Rightarrow> AgentWorkflow_execute_catch flow startTime error st2))"

section \<open>Listeners that only observe, and values that can be printed\<close>

text \<open>
  A listener only observes when, whatever event it is handed, it returns without throwing
  and leaves the payload as it found it; \<open>observing ls\<close> says so of all registered ones.
  Then every listener concerned is called with the event as emitted: \<open>delivered_to_all\<close>.
\<close>

definition observing :: "'d listeners \<Rightarrow> bool" where
  "observing ls \<longleftrightarrow>
     (\<forall>l \<in> set (on_event ls). \<forall>e. l e = (ev_data e, None)) \<and>
     (\<forall>t. \<forall>l \<in> set (on_type ls t). \<forall>e. l e = (ev_data e, None))"

definition no_listeners :: "'d listeners" where
  "no_listeners = \<lparr>on_event = [], on_type = (\<lambda>t. [])\<rparr>"

definition delivered :: "channel \<Rightarrow> nat \<Rightarrow> nat \<Rightarrow> 'd event \<Rightarrow> 'd delivery list" where
  "delivered ch i n e =
     map (\<lambda>j. \<lparr>dl_channel = ch, dl_position = j, dl_event = e\<rparr>) [i..<i + n]"

definition delivered_to_all :: "'d listeners \<Rightarrow> 'd event \<Rightarrow> 'd delivery list" where
  "delivered_to_all ls e =
     delivered On_event 0 (length (on_event ls)) e @
     delivered (On_type (ev_type e)) 0 (length (on_type ls (ev_type e))) e"

text \<open>
  For listeners that do not throw: the listeners of a list all return, each on the
  event as its predecessors have left it (\<open>all_return\<close>), and the payload they leave
  (\<open>payload_after\<close>).
\<close>

fun all_return :: "'d listener list \<Rightarrow> 'd event \<Rightarrow> bool" where
  "all_return [] e = True"
| "all_return (l # ls) e = (snd (l e) = None \<and> all_return ls (e\<lparr>ev_data := fst (l e)\<rparr>))"

fun payload_after :: "'d listener list \<Rightarrow> 'd event \<Rightarrow> 'd" where
  "payload_after [] e = ev_data e"
| "payload_after (l # ls) e = payload_after ls (e\<lparr>ev_data := fst (l e)\<rparr>)"

text \<open>
  A thrown value is printable when the \<open>catch\<close> blocks can turn it into an error: it is
  an \<open>Error\<close>, or \<open>String\<close> converts it.
\<close>

fun printable :: "thrown \<Rightarrow> bool" where
  "printable (AgentError m c d) = True"
| "printable (PlainError n m) = True"
| "printable (NonError s t) = (\<not> isl s)"

text \<open>
  A step throws printable values when what its handler and its condition throw, on
  whatever context, is printable. (What the error hook throws is caught and goes to
  the console as it is.)
\<close>

definition printable_step :: "'a workflow_step \<Rightarrow> bool" where
  "printable_step stp \<longleftrightarrow>
     (\<forall>ctx e. fst (snd (ws_handler stp ctx)) = Inl e \<longrightarrow> printable e) \<and>
     (\<forall>c ctx e. ws_condition stp = Some c \<longrightarrow> fst (snd (c ctx)) = Inl e \<longrightarrow> printable e)"

section \<open>The payload along a run\<close>

text \<open>
  What \<open>context.data\<close> is after a step with result \<open>r\<close>, when it was \<open>d\<close> before and the
  step's own code has not written to it: the value the step produced when it succeeded
  with a value that is neither \<open>null\<close> nor \<open>undefined\<close>, and \<open>d\<close> otherwise (a skipped
  step records \<open>null\<close>, a failed step nothing). Folded over the step results of a run,
  it gives the payload as the last handler that produced one has left it.
\<close>

definition data_after :: "'a jsval \<Rightarrow> 'a step_result \<Rightarrow> 'a jsval" where
  "data_after d r = (if sr_success r \<and> \<not> nullish (sr_data r) then sr_data r else d)"

text \<open>
  A step keeps its hands off \<open>context.data\<close> when neither its handler nor its condition
  nor its error hook assigns to the field: the engine's assignment after a handler
  that returned a value is then the only one.
\<close>

definition keeps_data :: "'a workflow_step \<Rightarrow> bool" where
  "keeps_data stp \<longleftrightarrow>
     (\<forall>ctx. ctx_data (snd (snd (ws_handler stp ctx))) = ctx_data ctx) \<and>
     (\<forall>c ctx. ws_condition stp = Some c \<longrightarrow> ctx_data (snd (snd (c ctx))) = ctx_data ctx) \<and>
     (\<forall>h e ctx. ws_onError stp = Some h \<longrightarrow> ctx_data (snd (snd (h e ctx))) = ctx_data ctx)"

section \<open>Example agents and workflows\<close>

text \<open>
  An agent whose work function counts its invocations in the world and succeeds from
  the invocation numbered \<open>good\<close> on (counted from 0), each call taking 10 ms.
\<close>

definition flaky_agent :: "nat \<Rightarrow> (nat, nat) base_agent" where
  "flaky_agent good =
     \<lparr>config = \<lparr>ac_name = ''flaky'', ac_timeout = 30000,
                ac_retry = \<lparr>maxAttempts = 3, delay = 100, backoff = Some Exponential,
                            maxDelay = None\<rparr>\<rparr>,
      listeners = no_listeners,
      prepare = (0, None),
      added_checks = (\<lambda>input. None),
      run = (\<lambda>ctx w. (10, if good \<le> w then Inr (Val 7)
                          else Inl (PlainError ''Error'' ''refused''), w + 1))\<rparr>"

definition idle_state :: "(nat, nat) agent_state" where
  "idle_state =
     \<lparr>a_clock = 0, a_world = 0, a_initialized = False, a_work_first = False, a_events = [],
      a_deliveries = [], a_invocations = [], a_sleeps = [], a_races = []\<rparr>"

definition plain_context :: "nat agent_context" where
  "plain_context = new_executionContext (Val 1) None ''flaky-0-abc'' 0"

text \<open>
  An agent whose work function hands back \<open>context.data\<close> and touches nothing.
\<close>

definition echo_agent :: "(nat, nat) base_agent" where
  "echo_agent =
     \<lparr>config = \<lparr>ac_name = ''echo'', ac_timeout = 30000,
                ac_retry = \<lparr>maxAttempts = 3, delay = 1000, backoff = Some Exponential,
                            maxDelay = None\<rparr>\<rparr>,
      listeners = no_listeners,
      prepare = (0, None),
      added_checks = (\<lambda>input. None),
      run = (\<lambda>ctx w. (5, Inr (ctx_data ctx), w))\<rparr>"






text \<open>
  A lead-qualification pipeline over leads that are numbers: \<open>validate\<close> rejects a missing
  lead and returns nothing, \<open>score\<close> adds 45 to the lead (and fails on the lead 0),
  \<open>qualify\<close> runs only for a score of at least 60, \<open>enrich\<close> always fails, and so does its
  error hook. None of them writes to the context. \<open>scribble\<close> does: its handler sets
  \<open>context.data\<close> to 999 and then fails. The handler of \<open>opaque\<close> throws a value that
  cannot be converted to a string (\<open>Object.create(null)\<close>), the handler of \<open>spiteful\<close> an
  object whose \<open>toString\<close> throws such a value.
\<close>

definition validate_step :: "nat workflow_step" where
  "validate_step =
     \<lparr>ws_name = ''validate'',
      ws_handler = (\<lambda>ctx. (1, if nullish (ctx_data ctx)
                               then Inl (PlainError ''Error'' ''Missing required fields'')
                               else Inr Undefined, ctx)),
      ws_condition = None, ws_onError = None\<rparr>"

definition score_step :: "nat workflow_step" where
  "score_step =
     \<lparr>ws_name = ''score'',
      ws_handler = (\<lambda>ctx. (2, case ctx_data ctx of
                                Val n \<Rightarrow> if n = 0 then Inl (PlainError ''Error'' ''Nothing to score'')
                                         else Inr (Val (n + 45))
                              | Null \<Rightarrow> Inl (PlainError ''Error'' ''Nothing to score'')
                              | Undefined \<Rightarrow> Inl (PlainError ''Error'' ''Nothing to score''), ctx)),
      ws_condition = None, ws_onError = None\<rparr>"

definition qualify_step :: "nat workflow_step" where
  "qualify_step =
     \<lparr>ws_name = ''qualify'',
      ws_handler = (\<lambda>ctx. (3, Inr (Val 100), ctx)),
      ws_condition = Some (\<lambda>ctx. (0, Inr (case ctx_data ctx of
                                             Val n \<Rightarrow> 60 \<le> n
                                           | Null \<Rightarrow> False
                                           | Undefined \<Rightarrow> False), ctx)),
      ws_onError = None\<rparr>"

definition broken_step :: "nat workflow_step" where
  "broken_step =
     \<lparr>ws_name = ''enrich'',
      ws_handler = (\<lambda>ctx. (1, Inl (NonError (Inr ''service down'') True), ctx)),
      ws_condition = None,
      ws_onError = Some (\<lambda>e ctx. (0, Some (PlainError ''Error'' ''hook failed''), ctx))\<rparr>"

definition scribble_step :: "nat workflow_step" where
  "scribble_step =
     \<lparr>ws_name = ''scribble'',
      ws_handler = (\<lambda>ctx. (1, Inl (PlainError ''Error'' ''gave up''), ctx\<lparr>ctx_data := Val 999\<rparr>)),
      ws_condition = None, ws_onError = None\<rparr>"

definition opaque_step :: "nat workflow_step" where
  "opaque_step =
     \<lparr>ws_name = ''opaque'',
      ws_handler = (\<lambda>ctx. (1, Inl (NonError (Inl cannot_convert) True), ctx)),
      ws_condition = None, ws_onError = None\<rparr>"

definition spiteful_step :: "nat workflow_step" where
  "spiteful_step =
     \<lparr>ws_name = ''spiteful'',
      ws_handler =
        (\<lambda>ctx. (1, Inl (NonError (Inl (NonError (Inl cannot_convert) True)) True), ctx)),
      ws_condition = None, ws_onError = None\<rparr>"

definition pipeline :: "on_error option \<Rightarrow> nat workflow_step list \<Rightarrow> nat agent_workflow" where
  "pipeline strategy steps =
     \<lparr>wf_config = new_config \<lparr>wo_name = ''lead-qualification'', wo_timeout = Some 60000,
                              wo_onError = strategy\<rparr>,
      wf_steps = steps, wf_listeners = no_listeners\<rparr>"

text \<open>
  Listeners registered with \<open>onEvent\<close>: \<open>observer\<close> looks at every event and returns;
  \<open>heckler\<close> throws when it is handed a \<open>step:complete\<close> or an \<open>agent:error\<close> event. And a
  listener registered with \<open>on(t, ...)\<close> for one event type, which throws: \<open>objector t\<close>.
\<close>

definition observer :: "'d listeners" where
  "observer = \<lparr>on_event = [\<lambda>e. (ev_data e, None)], on_type = (\<lambda>t. [])\<rparr>"

definition heckler :: "'d listeners" where
  "heckler =
     \<lparr>on_event = [\<lambda>e. (ev_data e,
                       if ev_type e = Step_complete \<or> ev_type e = Agent_error
                       then Some (PlainError ''Error'' ''listener failed'') else None)],
      on_type = (\<lambda>t. [])\<rparr>"

definition objector :: "event_type \<Rightarrow> 'd listeners" where
  "objector t =
     \<lparr>on_event = [],
      on_type = (\<lambda>t'. if t' = t then [\<lambda>e. (ev_data e, Some (PlainError ''Error'' ''listener failed''))]
                      else [])\<rparr>"

text \<open>The first two steps under a timeout of 2 ms.\<close>

definition hasty_pipeline :: "nat agent_workflow" where
  "hasty_pipeline =
     \<lparr>wf_config = new_config \<lparr>wo_name = ''hasty'', wo_timeout = Some 2, wo_onError = None\<rparr>,
      wf_steps = [validate_step, score_step], wf_listeners = no_listeners\<rparr>"

section \<open>Unfolding a concrete run\<close>

lemmas workflow_run =
  AgentWorkflow_execute_def emit_start_def seed_state_def AgentWorkflow_emitEvent_def
  emitEvent_def AgentWorkflow_execute_try_def AgentWorkflow_execute_complete_def
  AgentWorkflow_executeWithTimeout_def
  AgentWorkflow_execute_catch_def executeStep_def executeStep_try_def executeStep_handler_def
  executeStep_catch_def call_onError_def check_condition_def rollback_def thrown_error_def
  overtaken_at_def by_deadline_def timer_delay_def asError_def new_config_def no_listeners_def Let_def

lemmas pipeline_steps =
  pipeline_def validate_step_def score_step_def qualify_step_def broken_step_def
  scribble_step_def opaque_step_def spiteful_step_def


section \<open>Backoff delay\<close>

lemma calculateRetryDelay_linear:
  "backoff retry = Some Linear \<Longrightarrow> calculateRetryDelay k retry = delay retry"
  by (simp add: calculateRetryDelay_def)

lemma calculateRetryDelay_uncapped:
  "backoff retry = Some Exponential \<Longrightarrow> maxDelay retry = None \<Longrightarrow>
   calculateRetryDelay k retry = delay retry * 2 ^ nat (k - 1)"
  by (simp add: calculateRetryDelay_def)

lemma calculateRetryDelay_capped:
  "backoff retry = Some Exponential \<Longrightarrow> maxDelay retry = Some m \<Longrightarrow> m \<noteq> 0 \<Longrightarrow>
   calculateRetryDelay k retry = min (delay retry * 2 ^ nat (k - 1)) m"
  by (simp add: calculateRetryDelay_def)

text \<open>
  The delay before the retry that follows attempt \<open>k\<close>, for every cap but \<open>0\<close>: the
  constant delay under linear backoff, \<open>delay * 2^(k-1)\<close> under exponential backoff
  without a cap, and the smaller of that and the cap with a cap other than \<open>0\<close>.
\<close>

theorem calculateRetryDelay_backoff:
  "(backoff retry = Some Linear \<longrightarrow> calculateRetryDelay k retry = delay retry) \<and>
   (backoff retry = Some Exponential \<and> maxDelay retry = None \<longrightarrow>
      calculateRetryDelay k retry = delay retry * 2 ^ nat (k - 1)) \<and>
   (backoff retry = Some Exponential \<and> maxDelay retry = Some m \<and> m \<noteq> 0 \<longrightarrow>
      calculateRetryDelay k retry = min (delay retry * 2 ^ nat (k - 1)) m)"
  by (simp add: calculateRetryDelay_linear calculateRetryDelay_uncapped
      calculateRetryDelay_capped)

theorem calculateRetryDelay_backoff_witness:
  "calculateRetryDelay 3
     \<lparr>maxAttempts = 5, delay = 2000, backoff = Some Linear, maxDelay = Some 30000\<rparr> = 2000 \<and>
   calculateRetryDelay 3
     \<lparr>maxAttempts = 5, delay = 2000, backoff = Some Exponential, maxDelay = None\<rparr> = 8000 \<and>
   calculateRetryDelay 5
     \<lparr>maxAttempts = 5, delay = 2000, backoff = Some Exponential, maxDelay = Some 30000\<rparr>
     = 30000"
  using
    calculateRetryDelay_backoff [where k = 3 and m = 30000 and
      retry = "\<lparr>maxAttempts = 5, delay = 2000, backoff = Some Linear, maxDelay = Some 30000\<rparr>"]
    calculateRetryDelay_backoff [where k = 3 and m = 30000 and
      retry = "\<lparr>maxAttempts = 5, delay = 2000, backoff = Some Exponential, maxDelay = None\<rparr>"]
    calculateRetryDelay_backoff [where k = 5 and m = 30000 and
      retry = "\<lparr>maxAttempts = 5, delay = 2000, backoff = Some Exponential,
                maxDelay = Some 30000\<rparr>"]
  by simp

text \<open>
  C4. The claim asks for \<open>min (delay * 2^(k-1)) maxDelay\<close> whenever \<open>maxDelay\<close> is set.
  With \<open>maxDelay: 0\<close> set and \<open>delay: 1000\<close>, the first retry delay should then be
  \<open>min 1000 0 = 0\<close>; the code answers \<open>1000\<close>, because \<open>||\<close> takes the cap \<open>0\<close> for an
  absent one. For every other cap, for no cap and for linear backoff the delay is the
  claimed one (the theorem above).
\<close>

theorem calculateRetryDelay_zero_cap_ignored:
  "calculateRetryDelay 1
     \<lparr>maxAttempts = 3, delay = 1000, backoff = Some Exponential, maxDelay = Some 0\<rparr> = 1000
   \<and> min (1000 * 2 ^ nat (1 - 1)) (0::int) = 0"
  by (simp add: calculateRetryDelay_def)

section \<open>The retry loop\<close>

lemma world_after_shift:
  "world_after ag ctx (snd (snd (run ag ctx w))) n = world_after ag ctx w (Suc n)"
  by (induction n) simp_all

lemma attempt_outcome_shift:
  "attempt_outcome ag ctx (snd (snd (run ag ctx w))) (Suc j) = attempt_outcome ag ctx w (Suc (Suc j))"
  using world_after_shift [of ag ctx w j] by (simp add: attempt_outcome_def)

lemma invoke_run_eq:
  "invoke_run ag ctx st = (out, st1) \<Longrightarrow>
   attempt_outcome ag ctx (a_world st) (Suc 0) = out \<and>
   a_world st1 = snd (snd (run ag ctx (a_world st))) \<and>
   length (a_invocations st1) = Suc (length (a_invocations st))"
  by (auto simp: invoke_run_def attempt_outcome_def split: prod.splits)

lemma sleep_frame [simp]:
  "a_world (sleep ms st) = a_world st" "a_invocations (sleep ms st) = a_invocations st"
  by (simp_all add: sleep_def)

lemma retry_loop_all_fail:
  "n = nat (maxAttempts (ac_retry (config ag)) + 1 - a) \<Longrightarrow>
   \<forall>j<n. isl (attempt_outcome ag ctx (a_world st) (Suc j)) \<Longrightarrow>
   retry_loop ag ctx a le st = (res, st') \<Longrightarrow>
   length (a_invocations st') = length (a_invocations st) + n \<and>
   res = Inl (lastError_or_generic
               (if n = 0 then le else Some (projl (attempt_outcome ag ctx (a_world st) n))))"
proof (induction n arbitrary: a le st)
  case 0
  then have "\<not> a \<le> maxAttempts (ac_retry (config ag))" by simp
  with 0 show ?case by (simp add: retry_loop.simps)
next
  case (Suc n)
  let ?M = "maxAttempts (ac_retry (config ag))"
  from Suc.prems(1) have le: "a \<le> ?M" and n: "n = nat (?M + 1 - (a + 1))" by linarith+
  obtain out st1 where inv: "invoke_run ag ctx st = (out, st1)" by (cases "invoke_run ag ctx st")
  note facts = invoke_run_eq [OF inv]
  from Suc.prems(2) have "isl (attempt_outcome ag ctx (a_world st) 1)" by simp
  with facts obtain e where out: "out = Inl e" by (cases out) auto
  define st2 where "st2 = (if a < ?M then sleep (calculateRetryDelay a (ac_retry (config ag))) st1 else st1)"
  have w2: "a_world st2 = snd (snd (run ag ctx (a_world st)))"
    and i2: "length (a_invocations st2) = Suc (length (a_invocations st))"
    using facts by (simp_all add: st2_def)
  have rec: "retry_loop ag ctx (a + 1) (Some e) st2 = (res, st')"
    using Suc.prems(3) le inv out by (subst (asm) retry_loop.simps) (simp add: st2_def split: if_splits)
  have fails: "\<forall>j<n. isl (attempt_outcome ag ctx (a_world st2) (Suc j))"
    using Suc.prems(2) by (simp add: w2 attempt_outcome_shift)
  from Suc.IH [OF n fails rec]
  have len: "length (a_invocations st') = length (a_invocations st2) + n"
    and r: "res = Inl (lastError_or_generic
               (if n = 0 then Some e else Some (projl (attempt_outcome ag ctx (a_world st2) n))))"
    by simp_all
  have "e = projl (attempt_outcome ag ctx (a_world st) (Suc 0))" using facts out by simp
  moreover have "n \<noteq> 0 \<Longrightarrow> attempt_outcome ag ctx (a_world st2) n = attempt_outcome ag ctx (a_world st) (Suc n)"
    using attempt_outcome_shift [of ag ctx "a_world st" "n - 1"] by (simp add: w2)
  ultimately show ?case using len r i2 by (cases "n = 0") simp_all
qed

lemma retry_loop_first_success:
  "k < nat (maxAttempts (ac_retry (config ag)) + 1 - a) \<Longrightarrow>
   \<forall>j<k. isl (attempt_outcome ag ctx (a_world st) (Suc j)) \<Longrightarrow>
   attempt_outcome ag ctx (a_world st) (Suc k) = Inr v \<Longrightarrow>
   retry_loop ag ctx a le st = (res, st') \<Longrightarrow>
   length (a_invocations st') = length (a_invocations st) + Suc k \<and> res = Inr v"
proof (induction k arbitrary: a le st)
  case 0
  let ?M = "maxAttempts (ac_retry (config ag))"
  from 0 have le: "a \<le> ?M" by linarith
  obtain out st1 where inv: "invoke_run ag ctx st = (out, st1)" by (cases "invoke_run ag ctx st")
  note facts = invoke_run_eq [OF inv]
  with 0 have out: "out = Inr v" by simp
  show ?case using "0.prems"(4) le inv out facts
    by (subst (asm) retry_loop.simps) simp
next
  case (Suc k)
  let ?M = "maxAttempts (ac_retry (config ag))"
  from Suc.prems(1) have le: "a \<le> ?M" and k: "k < nat (?M + 1 - (a + 1))" by linarith+
  obtain out st1 where inv: "invoke_run ag ctx st = (out, st1)" by (cases "invoke_run ag ctx st")
  note facts = invoke_run_eq [OF inv]
  from Suc.prems(2) have "isl (attempt_outcome ag ctx (a_world st) 1)" by simp
  with facts obtain e where out: "out = Inl e" by (cases out) auto
  define st2 where "st2 = (if a < ?M then sleep (calculateRetryDelay a (ac_retry (config ag))) st1 else st1)"
  have w2: "a_world st2 = snd (snd (run ag ctx (a_world st)))"
    and i2: "length (a_invocations st2) = Suc (length (a_invocations st))"
    using facts by (simp_all add: st2_def)
  have rec: "retry_loop ag ctx (a + 1) (Some e) st2 = (res, st')"
    using Suc.prems(4) le inv out by (subst (asm) retry_loop.simps) (simp add: st2_def split: if_splits)
  have fails: "\<forall>j<k. isl (attempt_outcome ag ctx (a_world st2) (Suc j))"
    using Suc.prems(2) by (simp add: w2 attempt_outcome_shift)
  have succ: "attempt_outcome ag ctx (a_world st2) (Suc k) = Inr v"
    using Suc.prems(3) by (simp add: w2 attempt_outcome_shift)
  from Suc.IH [OF k fails succ rec] show ?case using i2 by simp
qed

lemma retry_loop_bound:
  "retry_loop ag ctx a le st = (res, st') \<Longrightarrow>
   length (a_invocations st') \<le> length (a_invocations st) + nat (maxAttempts (ac_retry (config ag)) + 1 - a)"
proof (induction ag ctx a le st rule: retry_loop.induct)
  case (1 ag ctx attempt lastError st)
  let ?M = "maxAttempts (ac_retry (config ag))"
  show ?case
  proof (cases "attempt \<le> ?M")
    case False
    with "1.prems" show ?thesis by (simp add: retry_loop.simps)
  next
    case True
    obtain out st1 where inv: "invoke_run ag ctx st = (out, st1)" by (cases "invoke_run ag ctx st")
    note facts = invoke_run_eq [OF inv]
    show ?thesis
    proof (cases out)
      case (Inr v)
      with "1.prems" True inv facts show ?thesis by (subst (asm) retry_loop.simps) simp
    next
      case (Inl e)
      show ?thesis
      proof (cases "attempt < ?M")
        case lt: True
        have rec: "retry_loop ag ctx (attempt + 1) (Some e) (sleep (calculateRetryDelay attempt (ac_retry (config ag))) st1) = (res, st')"
          using "1.prems" True inv Inl lt by (subst (asm) retry_loop.simps) simp
        from "1.IH"(1) [OF True inv [symmetric] Inl lt rec] facts True show ?thesis by simp
      next
        case nlt: False
        have rec: "retry_loop ag ctx (attempt + 1) (Some e) st1 = (res, st')"
          using "1.prems" True inv Inl nlt by (subst (asm) retry_loop.simps) simp
        from "1.IH"(2) [OF True inv [symmetric] Inl nlt rec] facts True show ?thesis by simp
      qed
    qed
  qed
qed

text \<open>
  C5. With \<open>maxAttempts \<ge> 1\<close>, \<open>executeWithRetry\<close> never invokes \<open>run\<close> more than
  \<open>maxAttempts\<close> times; when every attempt fails it invokes it exactly \<open>maxAttempts\<close>
  times and throws the error of the last attempt, or the generic \<open>EXECUTION_FAILED\<close>
  error when \<open>lastError\<close> holds nothing (the code tests this with \<open>||\<close>: a falsy rejection
  value such as \<open>undefined\<close> counts as nothing captured); when attempt \<open>k\<close> is the first
  to succeed it invokes it exactly \<open>k\<close> times and returns that attempt's value.
\<close>

theorem executeWithRetry_invocation_count:
  assumes "1 \<le> maxAttempts (ac_retry (config ag))"
  shows
    "invocations_during st (snd (executeWithRetry ag ctx st))
       \<le> nat (maxAttempts (ac_retry (config ag))) \<and>
     ((\<forall>k \<in> {1..nat (maxAttempts (ac_retry (config ag)))}.
          isl (attempt_outcome ag ctx (a_world st) k)) \<longrightarrow>
        invocations_during st (snd (executeWithRetry ag ctx st))
          = nat (maxAttempts (ac_retry (config ag))) \<and>
        fst (executeWithRetry ag ctx st) =
          Inl (let e = projl (attempt_outcome ag ctx (a_world st)
                              (nat (maxAttempts (ac_retry (config ag)))))
               in if truthy e then e
                  else AgentError ''Execution failed'' ''EXECUTION_FAILED'' None)) \<and>
     (\<forall>k \<in> {1..nat (maxAttempts (ac_retry (config ag)))}. \<forall>v.
        (\<forall>j \<in> {1..<k}. isl (attempt_outcome ag ctx (a_world st) j)) \<and>
        attempt_outcome ag ctx (a_world st) k = Inr v \<longrightarrow>
        invocations_during st (snd (executeWithRetry ag ctx st)) = k \<and>
        fst (executeWithRetry ag ctx st) = Inr v)"
proof -
  let ?M = "maxAttempts (ac_retry (config ag))"
  obtain res st' where run: "retry_loop ag ctx 1 None st = (res, st')"
    by (cases "retry_loop ag ctx 1 None st")
  have n: "nat ?M = nat (?M + 1 - 1)" by simp
  have pos: "nat ?M \<noteq> 0" using assms by simp
  have bound: "invocations_during st st' \<le> nat ?M"
    using retry_loop_bound [OF run] by (simp add: invocations_during_def)
  have exhausted:
    "invocations_during st st' = nat ?M \<and>
     res = Inl (let e = projl (attempt_outcome ag ctx (a_world st) (nat ?M))
                in if truthy e then e
                   else AgentError ''Execution failed'' ''EXECUTION_FAILED'' None)"
    if "\<forall>k \<in> {1..nat ?M}. isl (attempt_outcome ag ctx (a_world st) k)"
  proof -
    from that have "\<forall>j<nat ?M. isl (attempt_outcome ag ctx (a_world st) (Suc j))" by simp
    from retry_loop_all_fail [OF n this run] pos show ?thesis
      by (simp add: invocations_during_def lastError_or_generic_def Let_def)
  qed
  have succeeded: "invocations_during st st' = k \<and> res = Inr v"
    if k: "k \<in> {1..nat ?M}"
      and before: "\<forall>j \<in> {1..<k}. isl (attempt_outcome ag ctx (a_world st) j)"
      and at: "attempt_outcome ag ctx (a_world st) k = Inr v" for k v
  proof -
    from k obtain k' where k': "k = Suc k'" by (cases k) auto
    with k have lt: "k' < nat (?M + 1 - 1)" by simp
    from before k' have fails: "\<forall>j<k'. isl (attempt_outcome ag ctx (a_world st) (Suc j))" by simp
    from at k' have at': "attempt_outcome ag ctx (a_world st) (Suc k') = Inr v" by simp
    from retry_loop_first_success [OF lt fails at' run] k' show ?thesis
      by (simp add: invocations_during_def)
  qed
  show ?thesis
    unfolding executeWithRetry_def run fst_conv snd_conv
    using bound exhausted succeeded by blast
qed

theorem executeWithRetry_invocation_count_witness:
  "invocations_during idle_state (snd (executeWithRetry (flaky_agent 2) plain_context idle_state)) = 3 \<and>
   fst (executeWithRetry (flaky_agent 2) plain_context idle_state) = Inr (Val 7) \<and>
   map snd (a_sleeps (snd (executeWithRetry (flaky_agent 2) plain_context idle_state))) = [100, 200] \<and>
   invocations_during idle_state (snd (executeWithRetry (flaky_agent 5) plain_context idle_state)) = 3 \<and>
   fst (executeWithRetry (flaky_agent 5) plain_context idle_state) = Inl (PlainError ''Error'' ''refused'')"
proof -
  have m: "1 \<le> maxAttempts (ac_retry (config (flaky_agent g)))" for g
    by (simp add: flaky_agent_def)
  have w: "world_after (flaky_agent g) plain_context 0 n = n" for g n
    by (induction n) (simp_all add: flaky_agent_def)
  have o: "attempt_outcome (flaky_agent g) plain_context 0 k =
             (if g \<le> k - 1 then Inr (Val 7) else Inl (PlainError ''Error'' ''refused''))" for g k
    by (simp add: attempt_outcome_def w) (simp add: flaky_agent_def)
  have three: "nat (maxAttempts (ac_retry (config (flaky_agent g)))) = 3" for g
    by (simp add: flaky_agent_def)
  have s: "map snd (a_sleeps (snd (executeWithRetry (flaky_agent 2) plain_context idle_state))) = [100, 200]"
    by (simp add: executeWithRetry_def retry_loop.simps flaky_agent_def idle_state_def
        invoke_run_def sleep_def calculateRetryDelay_def)
  have a: "3 \<in> {1..nat (maxAttempts (ac_retry (config (flaky_agent 2))))}" by (simp add: three)
  have b: "(\<forall>j \<in> {1..<3}. isl (attempt_outcome (flaky_agent 2) plain_context (a_world idle_state) j)) \<and>
        attempt_outcome (flaky_agent 2) plain_context (a_world idle_state) 3 = Inr (Val 7)"
    by (auto simp: o idle_state_def)
  have c: "\<forall>k \<in> {1..nat (maxAttempts (ac_retry (config (flaky_agent 5))))}.
          isl (attempt_outcome (flaky_agent 5) plain_context (a_world idle_state) k)"
    by (auto simp: o idle_state_def three)
  from executeWithRetry_invocation_count [OF m [of 2], where st = idle_state and ctx = plain_context] a b
  have "invocations_during idle_state (snd (executeWithRetry (flaky_agent 2) plain_context idle_state)) = 3 \<and>
   fst (executeWithRetry (flaky_agent 2) plain_context idle_state) = Inr (Val 7)" by blast
  moreover
  from executeWithRetry_invocation_count [OF m [of 5], where st = idle_state and ctx = plain_context] c
  have "invocations_during idle_state (snd (executeWithRetry (flaky_agent 5) plain_context idle_state)) = 3 \<and>
   fst (executeWithRetry (flaky_agent 5) plain_context idle_state) = Inl (PlainError ''Error'' ''refused'')"
    by (simp add: o three idle_state_def)
  ultimately show ?thesis using s by simp
qed

section \<open>Listeners that only observe\<close>

lemma delivered_Suc:
  "delivered ch i (Suc n) e =
     \<lparr>dl_channel = ch, dl_position = i, dl_event = e\<rparr> # delivered ch (Suc i) n e"
  by (simp add: delivered_def upt_conv_Cons)

lemma delivered_0 [simp]: "delivered ch i 0 e = []"
  by (simp add: delivered_def)

lemma emit_observing:
  "\<forall>l \<in> set ls. \<forall>e. l e = (ev_data e, None) \<Longrightarrow>
   emit ch i ls e = (ev_data e, None, delivered ch i (length ls) e)"
  by (induction ls arbitrary: i) (simp_all add: delivered_Suc)

lemma emitEvent_observing:
  "observing ls \<Longrightarrow> emitEvent ls e = (ev_data e, None, delivered_to_all ls e)"
  by (simp add: emitEvent_def observing_def emit_observing delivered_to_all_def)

lemma observing_no_listeners: "observing no_listeners"
  by (simp add: observing_def no_listeners_def)


section \<open>\<open>BaseAgent.execute\<close>\<close>

lemma BaseAgent_emitEvent_frame:
  "BaseAgent_emitEvent ag e st = (d, x, st') \<Longrightarrow>
   a_invocations st' = a_invocations st \<and> a_sleeps st' = a_sleeps st \<and>
   a_races st' = a_races st \<and> a_world st' = a_world st \<and> a_clock st' = a_clock st \<and>
   a_initialized st' = a_initialized st \<and> a_work_first st' = a_work_first st"
  by (auto simp: BaseAgent_emitEvent_def split: prod.splits)
















section \<open>What \<open>run\<close> is given, and what it may change\<close>








section \<open>\<open>AgentWorkflow\<close>: steps and the step loop\<close>

lemma pipeline_observing: "observing (wf_listeners (pipeline s steps))"
  by (simp add: pipeline_def observing_no_listeners)

lemma AgentWorkflow_emitEvent_observing:
  "observing (wf_listeners flow) \<Longrightarrow>
   AgentWorkflow_emitEvent flow e st =
     (ev_data e, None,
      st\<lparr>w_events := w_events st @ [e],
         w_deliveries := w_deliveries st @ delivered_to_all (wf_listeners flow) e\<rparr>)"
  by (simp add: AgentWorkflow_emitEvent_def emitEvent_observing)

lemma keeps_data_handler:
  "keeps_data stp \<Longrightarrow> ws_handler stp ctx = (d, r, ctx') \<Longrightarrow> ctx_data ctx' = ctx_data ctx"
proof -
  assume k: "keeps_data stp" and h: "ws_handler stp ctx = (d, r, ctx')"
  from k have "ctx_data (snd (snd (ws_handler stp ctx))) = ctx_data ctx"
    by (simp add: keeps_data_def)
  with h show ?thesis by simp
qed

lemma keeps_data_condition:
  "keeps_data stp \<Longrightarrow> ws_condition stp = Some c \<Longrightarrow> c ctx = (d, r, ctx') \<Longrightarrow>
   ctx_data ctx' = ctx_data ctx"
proof -
  assume k: "keeps_data stp" and c: "ws_condition stp = Some c" and h: "c ctx = (d, r, ctx')"
  from k c have "ctx_data (snd (snd (c ctx))) = ctx_data ctx"
    by (simp add: keeps_data_def)
  with h show ?thesis by simp
qed

lemma keeps_data_onError:
  "keeps_data stp \<Longrightarrow> ws_onError stp = Some h \<Longrightarrow> h e ctx = (d, r, ctx') \<Longrightarrow>
   ctx_data ctx' = ctx_data ctx"
proof -
  assume k: "keeps_data stp" and c: "ws_onError stp = Some h" and h: "h e ctx = (d, r, ctx')"
  from k c have "ctx_data (snd (snd (h e ctx))) = ctx_data ctx"
    by (simp add: keeps_data_def)
  with h show ?thesis by simp
qed

lemma check_condition_frame:
  "check_condition stp st = (c, st') \<Longrightarrow>
   w_stepResults st' = w_stepResults st \<and> w_invoked st' = w_invoked st \<and>
   w_events st' = w_events st \<and> w_deliveries st' = w_deliveries st \<and>
   w_console st' = w_console st \<and> w_races st' = w_races st \<and>
   w_work_first st' = w_work_first st \<and>
   (keeps_data stp \<longrightarrow> ctx_data (w_context st') = ctx_data (w_context st))"
  by (auto simp: check_condition_def split: option.splits prod.splits
      dest: keeps_data_condition)

lemma call_onError_frame:
  "w_stepResults (call_onError stp e st) = w_stepResults st \<and>
   w_invoked (call_onError stp e st) = w_invoked st \<and>
   w_events (call_onError stp e st) = w_events st \<and>
   w_deliveries (call_onError stp e st) = w_deliveries st \<and>
   w_races (call_onError stp e st) = w_races st \<and>
   w_work_first (call_onError stp e st) = w_work_first st \<and>
   (keeps_data stp \<longrightarrow> ctx_data (w_context (call_onError stp e st)) = ctx_data (w_context st))"
  by (auto simp: call_onError_def split: option.splits prod.splits dest: keeps_data_onError)

text \<open>
  A step whose condition evaluates to false, the listeners only observing: the step
  result is \<open>success: true, data: null\<close>; the context is as the condition has left it,
  \<open>stepResults\<close> and the handler log are as before; the clock has moved by the time the
  condition took; and exactly one event has been emitted and delivered, \<open>step:start\<close>.
\<close>

theorem executeStep_skip:
  assumes "observing (wf_listeners flow)"
    and "ws_condition stp = Some c" and "c (w_context st) = (d, Inr False, ctx')"
  shows "executeStep flow stp st =
    (Returned \<lparr>sr_step = ws_name stp, sr_success = True, sr_data = Null, sr_error = None,
               sr_startedAt = w_clock st, sr_completedAt = w_clock st + d, sr_duration = d\<rparr>,
     st\<lparr>w_clock := w_clock st + d,
        w_context := ctx',
        w_events := w_events st @
          [\<lparr>ev_type = Step_start, ev_timestamp = w_clock st,
            ev_data = StepName (ws_name stp), ev_error = None\<rparr>],
        w_deliveries := w_deliveries st @
          delivered_to_all (wf_listeners flow)
            \<lparr>ev_type = Step_start, ev_timestamp = w_clock st,
             ev_data = StepName (ws_name stp), ev_error = None\<rparr>\<rparr>)"
  using assms
  by (simp add: executeStep_def Let_def AgentWorkflow_emitEvent_observing executeStep_try_def
      check_condition_def)

theorem executeStep_skip_witness:
  "observing (wf_listeners (pipeline None [qualify_step])) \<and>
   fst (executeStep (pipeline None [qualify_step]) qualify_step
          (seed_state (Val 50) None ''wf-1'' 7 False)) =
     Returned \<lparr>sr_step = ''qualify'', sr_success = True, sr_data = Null, sr_error = None,
               sr_startedAt = 7, sr_completedAt = 7, sr_duration = 0\<rparr> \<and>
   map ev_type (w_events (snd (executeStep (pipeline None [qualify_step]) qualify_step
          (seed_state (Val 50) None ''wf-1'' 7 False)))) = [Step_start] \<and>
   w_context (snd (executeStep (pipeline None [qualify_step]) qualify_step
          (seed_state (Val 50) None ''wf-1'' 7 False))) =
     w_context (seed_state (Val 50) None ''wf-1'' 7 False)"
proof -
  let ?c = "\<lambda>ctx :: nat agent_context.
              (0 :: nat, Inr (case ctx_data ctx of
                               Val n \<Rightarrow> 60 \<le> n | Null \<Rightarrow> False | Undefined \<Rightarrow> False)
                         :: thrown + bool, ctx)"
  let ?st = "seed_state (Val 50) None ''wf-1'' 7 False :: nat workflow_state"
  have c: "ws_condition qualify_step = Some ?c" by (simp add: qualify_step_def)
  have f: "?c (w_context ?st) = (0, Inr False, w_context ?st)"
    by (simp add: seed_state_def)
  have n: "ws_name qualify_step = ''qualify''" by (simp add: qualify_step_def)
  from executeStep_skip [OF pipeline_observing c f, of None "[qualify_step]"] n
    pipeline_observing [of None "[qualify_step]"]
  show ?thesis by (simp add: seed_state_def)
qed

lemma asError_cases:
  "(\<exists>e'. asError e = Returned e' \<and> instanceofError e') \<or> (\<exists>x. asError e = Raised x)"
  by (cases e) (auto simp: asError_def split: sum.splits)

lemma asError_id: "instanceofError e \<Longrightarrow> asError e = Returned e"
  by (simp add: asError_def)

lemma executeStep_catch_observing:
  assumes q: "observing (wf_listeners flow)"
    and c: "executeStep_catch flow stp t0 x st = (out, st')"
  shows "w_stepResults st' = w_stepResults st \<and> w_invoked st' = w_invoked st \<and>
     w_work_first st' = w_work_first st \<and>
     (keeps_data stp \<longrightarrow> ctx_data (w_context st') = ctx_data (w_context st)) \<and>
     ((\<exists>y. out = Raised y) \<or>
      (\<exists>r e. out = Returned r \<and> \<not> sr_success r \<and> sr_data r = Undefined \<and>
             sr_error r = Some e \<and> instanceofError e))"
proof -
  from asError_cases [of x] show ?thesis
  proof
    assume "\<exists>y. asError x = Raised y"
    with c show ?thesis by (auto simp: executeStep_catch_def)
  next
    assume "\<exists>e'. asError x = Returned e' \<and> instanceofError e'"
    then obtain e' where e': "asError x = Returned e'" "instanceofError e'" by blast
    with c call_onError_frame [of stp e' st] show ?thesis
      by (auto simp: executeStep_catch_def Let_def AgentWorkflow_emitEvent_observing [OF q])
  qed
qed

lemma executeStep_handler_observing:
  assumes q: "observing (wf_listeners flow)"
    and h: "executeStep_handler flow stp t0 st = (out, st')"
  shows "w_stepResults st' = w_stepResults st \<and>
     length (w_invoked st') = Suc (length (w_invoked st)) \<and>
     w_work_first st' = w_work_first st \<and>
     (case out of
        Inl x \<Rightarrow> keeps_data stp \<longrightarrow> ctx_data (w_context st') = ctx_data (w_context st)
      | Inr r \<Rightarrow> sr_success r \<and> sr_error r = None \<and>
          (keeps_data stp \<longrightarrow> ctx_data (w_context st') = data_after (ctx_data (w_context st)) r))"
proof -
  obtain d r ctx' where hh: "ws_handler stp (w_context st) = (d, r, ctx')"
    by (cases "ws_handler stp (w_context st)")
  then have k: "keeps_data stp \<longrightarrow> ctx_data ctx' = ctx_data (w_context st)"
    by (auto dest: keeps_data_handler)
  show ?thesis
  proof (cases r)
    case (Inl x)
    with h hh k show ?thesis by (auto simp: executeStep_handler_def Let_def)
  next
    case (Inr v)
    with h hh k show ?thesis
      by (cases "nullish v")
         (auto simp: executeStep_handler_def Let_def AgentWorkflow_emitEvent_observing [OF q]
          data_after_def)
  qed
qed

lemma executeStep_observing:
  assumes q: "observing (wf_listeners flow)"
    and e: "executeStep flow stp st = (out, st')"
  shows "w_stepResults st' = w_stepResults st \<and>
     length (w_invoked st') \<le> Suc (length (w_invoked st)) \<and>
     w_work_first st' = w_work_first st \<and>
     (case out of
        Raised x \<Rightarrow> True
      | Returned r \<Rightarrow>
          (sr_success r \<longrightarrow> sr_error r = None) \<and>
          (\<not> sr_success r \<longrightarrow> (\<exists>e. sr_error r = Some e \<and> instanceofError e)) \<and>
          (keeps_data stp \<longrightarrow> ctx_data (w_context st') = data_after (ctx_data (w_context st)) r))"
proof -
  let ?ev = "\<lparr>ev_type = Step_start, ev_timestamp = w_clock st,
            ev_data = StepName (ws_name stp), ev_error = None\<rparr>"
  let ?st1 = "st\<lparr>w_events := w_events st @ [?ev],
                 w_deliveries := w_deliveries st @ delivered_to_all (wf_listeners flow) ?ev\<rparr>"
  obtain c st2 where cc: "check_condition stp ?st1 = (c, st2)"
    by (cases "check_condition stp ?st1")
  note f = check_condition_frame [OF cc]
  have body: "executeStep flow stp st =
     (case executeStep_try flow stp (w_clock st) ?st1 of
        (Inr stepResult, s) \<Rightarrow> (Returned stepResult, s)
      | (Inl error, s) \<Rightarrow> executeStep_catch flow stp (w_clock st) error s)"
    by (simp add: executeStep_def Let_def AgentWorkflow_emitEvent_observing [OF q])
  show ?thesis
  proof (cases c)
    case (Inl x)
    with e body cc have "executeStep_catch flow stp (w_clock st) x st2 = (out, st')"
      by (simp add: executeStep_try_def)
    from executeStep_catch_observing [OF q this] f show ?thesis
      by (auto simp: data_after_def)
  next
    case (Inr b)
    show ?thesis
    proof (cases b)
      case False
      with Inr e body cc f show ?thesis
        by (auto simp: executeStep_try_def data_after_def)
    next
      case True
      obtain h st3 where hh: "executeStep_handler flow stp (w_clock st) st2 = (h, st3)"
        by (cases "executeStep_handler flow stp (w_clock st) st2")
      note g = executeStep_handler_observing [OF q hh]
      show ?thesis
      proof (cases h)
        case r: (Inr v)
        with Inr True e body cc hh have "out = Returned v" "st' = st3"
          by (simp_all add: executeStep_try_def)
        with g f r show ?thesis by auto
      next
        case l: (Inl x)
        with Inr True e body cc hh
        have "executeStep_catch flow stp (w_clock st) x st3 = (out, st')"
          by (simp add: executeStep_try_def)
        from executeStep_catch_observing [OF q this] g f l show ?thesis
          by (auto simp: data_after_def)
      qed
    qed
  qed
qed

lemma runSteps_append:
  "runSteps flow (pre @ rest) st =
     (case runSteps flow pre st of
        (None, st2) \<Rightarrow> runSteps flow rest st2
      | (Some x, st2) \<Rightarrow> (Some x, st2))"
  by (induction pre arbitrary: st) (auto simp: Let_def split: prod.splits completion.splits)

lemma runSteps_completed:
  assumes q: "observing (wf_listeners flow)"
  shows "runSteps flow steps st = (None, st') \<Longrightarrow>
     \<exists>rs. w_stepResults st' = w_stepResults st @ rs \<and> length rs = length steps \<and>
       w_work_first st' = w_work_first st \<and>
       ((\<forall>stp \<in> set steps. keeps_data stp) \<longrightarrow>
          ctx_data (w_context st') = foldl data_after (ctx_data (w_context st)) rs) \<and>
       (wc_onError (wf_config flow) = Stop \<longrightarrow>
          (\<forall>r \<in> set rs. sr_success r) \<and>
          length (w_invoked st') \<le> length (w_invoked st) + length steps)"
proof (induction steps arbitrary: st)
  case Nil
  then show ?case by simp
next
  case (Cons stp rest)
  obtain out st1 where e: "executeStep flow stp st = (out, st1)"
    by (cases "executeStep flow stp st")
  with Cons.prems obtain r where out: "out = Returned r"
    by (cases out) auto
  from executeStep_observing [OF q e] out have
    s: "w_stepResults st1 = w_stepResults st"
    and i: "length (w_invoked st1) \<le> Suc (length (w_invoked st))"
    and f: "w_work_first st1 = w_work_first st"
    and d: "keeps_data stp \<longrightarrow> ctx_data (w_context st1) = data_after (ctx_data (w_context st)) r"
    by simp_all
  let ?st2 = "st1\<lparr>w_stepResults := w_stepResults st1 @ [r],
                 w_context := (w_context st1)\<lparr>ctx_history := ctx_history (w_context st1) @ [r]\<rparr>\<rparr>"
  from Cons.prems e out have rest: "runSteps flow rest ?st2 = (None, st')"
    and ok: "wc_onError (wf_config flow) = Stop \<longrightarrow> sr_success r"
    by (auto simp: Let_def split: if_splits)
  from Cons.IH [OF rest] obtain rs where
    rs: "w_stepResults st' = w_stepResults ?st2 @ rs" "length rs = length rest"
      "w_work_first st' = w_work_first ?st2"
      "(\<forall>stp \<in> set rest. keeps_data stp) \<longrightarrow>
          ctx_data (w_context st') = foldl data_after (ctx_data (w_context ?st2)) rs"
      "wc_onError (wf_config flow) = Stop \<longrightarrow>
          (\<forall>r \<in> set rs. sr_success r) \<and>
          length (w_invoked st') \<le> length (w_invoked ?st2) + length rest"
    by blast
  have "w_stepResults st' = w_stepResults st @ (r # rs)" using rs(1) s by simp
  moreover have "length (r # rs) = length (stp # rest)" using rs(2) by simp
  moreover have "w_work_first st' = w_work_first st" using rs(3) f by simp
  moreover have "(\<forall>x \<in> set (stp # rest). keeps_data x) \<longrightarrow>
          ctx_data (w_context st') = foldl data_after (ctx_data (w_context st)) (r # rs)"
    using rs(4) d by simp
  moreover have "wc_onError (wf_config flow) = Stop \<longrightarrow>
          (\<forall>x \<in> set (r # rs). sr_success x) \<and>
          length (w_invoked st') \<le> length (w_invoked st) + length (stp # rest)"
    using rs(5) ok i by auto
  ultimately show ?case by blast
qed

lemma asError_printable: "printable x \<Longrightarrow> \<exists>e. asError x = Returned e"
  by (cases x) (auto simp: asError_def split: sum.splits)

lemma executeStep_catch_returns:
  "observing (wf_listeners flow) \<Longrightarrow> printable x \<Longrightarrow>
   \<exists>r s. executeStep_catch flow stp t0 x st = (Returned r, s)"
  by (auto simp: executeStep_catch_def Let_def AgentWorkflow_emitEvent_observing
      dest: asError_printable [of x])

lemma printable_step_handler:
  "printable_step stp \<Longrightarrow> ws_handler stp ctx = (d, Inl x, ctx') \<Longrightarrow> printable x"
proof -
  assume p: "printable_step stp" and h: "ws_handler stp ctx = (d, Inl x, ctx')"
  from h have "fst (snd (ws_handler stp ctx)) = Inl x" by simp
  with p show ?thesis unfolding printable_step_def by blast
qed

lemma printable_step_condition:
  "printable_step stp \<Longrightarrow> ws_condition stp = Some c \<Longrightarrow> c ctx = (d, Inl x, ctx') \<Longrightarrow>
   printable x"
proof -
  assume p: "printable_step stp" and c: "ws_condition stp = Some c"
    and h: "c ctx = (d, Inl x, ctx')"
  from h have "fst (snd (c ctx)) = Inl x" by simp
  with p c show ?thesis unfolding printable_step_def by blast
qed

lemma executeStep_returns:
  assumes q: "observing (wf_listeners flow)" and p: "printable_step stp"
  shows "\<exists>r s. executeStep flow stp st = (Returned r, s)"
proof -
  let ?ev = "\<lparr>ev_type = Step_start, ev_timestamp = w_clock st,
            ev_data = StepName (ws_name stp), ev_error = None\<rparr>"
  let ?st1 = "st\<lparr>w_events := w_events st @ [?ev],
                 w_deliveries := w_deliveries st @ delivered_to_all (wf_listeners flow) ?ev\<rparr>"
  have body: "executeStep flow stp st =
     (case executeStep_try flow stp (w_clock st) ?st1 of
        (Inr stepResult, s) \<Rightarrow> (Returned stepResult, s)
      | (Inl error, s) \<Rightarrow> executeStep_catch flow stp (w_clock st) error s)"
    by (simp add: executeStep_def Let_def AgentWorkflow_emitEvent_observing [OF q])
  obtain t s where tr: "executeStep_try flow stp (w_clock st) ?st1 = (t, s)"
    by (cases "executeStep_try flow stp (w_clock st) ?st1")
  show ?thesis
  proof (cases t)
    case (Inr r)
    with body tr show ?thesis by simp
  next
    case (Inl x)
    have "printable x"
      using tr Inl p
      by (auto simp: executeStep_try_def check_condition_def executeStep_handler_def Let_def
          AgentWorkflow_emitEvent_observing [OF q]
          split: option.splits prod.splits sum.splits if_splits
          dest: printable_step_handler printable_step_condition)
    from executeStep_catch_returns [OF q this, of stp "w_clock st" s] body tr Inl
    show ?thesis by simp
  qed
qed

lemma runSteps_continue:
  assumes q: "observing (wf_listeners flow)" and c: "wc_onError (wf_config flow) = Continue"
  shows "\<forall>stp \<in> set steps. printable_step stp \<Longrightarrow> fst (runSteps flow steps st) = None"
proof (induction steps arbitrary: st)
  case Nil
  show ?case by simp
next
  case (Cons stp rest)
  from Cons.prems have p: "printable_step stp" and ps: "\<forall>stp \<in> set rest. printable_step stp"
    by simp_all
  from executeStep_returns [OF q p, of st] obtain r s where
    e: "executeStep flow stp st = (Returned r, s)" by blast
  show ?case using e c Cons.IH [OF ps] by (simp add: Let_def)
qed


lemma emit_start_observing:
  "observing (wf_listeners flow) \<Longrightarrow>
   emit_start flow st =
     (None, st\<lparr>w_events := w_events st @
        [\<lparr>ev_type = Workflow_start, ev_timestamp = w_clock st,
          ev_data = WorkflowInfo (wc_name (wf_config flow)) (length (wf_steps flow)),
          ev_error = None\<rparr>],
        w_deliveries := w_deliveries st @
          delivered_to_all (wf_listeners flow)
            \<lparr>ev_type = Workflow_start, ev_timestamp = w_clock st,
             ev_data = WorkflowInfo (wc_name (wf_config flow)) (length (wf_steps flow)),
             ev_error = None\<rparr>\<rparr>)"
  by (simp add: emit_start_def AgentWorkflow_emitEvent_observing)

lemma seed_state_simps [simp]:
  "w_clock (seed_state input ic wid now tie) = now"
  "ctx_data (w_context (seed_state input ic wid now tie)) = input"
  "w_stepResults (seed_state input ic wid now tie) = []"
  "w_invoked (seed_state input ic wid now tie) = []"
  "w_events (seed_state input ic wid now tie) = []"
  "w_work_first (seed_state input ic wid now tie) = tie"
  by (simp_all add: seed_state_def)

lemma AgentWorkflow_execute_observing:
  assumes q: "observing (wf_listeners flow)"
    and w: "AgentWorkflow_executeWithTimeout (runSteps flow (wf_steps flow))
              (wc_timeout (wf_config flow))
              (snd (emit_start flow (seed_state input ic wid now tie))) = (x, st2)"
  shows "AgentWorkflow_execute flow input ic wid now tie =
    (case x of
       None \<Rightarrow>
         (Returned \<lparr>wr_success = True, wr_data = Some (ctx_data (w_context st2)),
                    wr_steps = w_stepResults st2, wr_error = None,
                    wr_executionTime = w_clock st2 - now\<rparr>,
          st2\<lparr>w_events := w_events st2 @
            [\<lparr>ev_type = Workflow_complete, ev_timestamp = w_clock st2,
              ev_data = WorkflowResultData
                \<lparr>wr_success = True, wr_data = Some (ctx_data (w_context st2)),
                 wr_steps = w_stepResults st2, wr_error = None,
                 wr_executionTime = w_clock st2 - now\<rparr>,
              ev_error = None\<rparr>],
            w_deliveries := w_deliveries st2 @
              delivered_to_all (wf_listeners flow)
                \<lparr>ev_type = Workflow_complete, ev_timestamp = w_clock st2,
                 ev_data = WorkflowResultData
                   \<lparr>wr_success = True, wr_data = Some (ctx_data (w_context st2)),
                    wr_steps = w_stepResults st2, wr_error = None,
                    wr_executionTime = w_clock st2 - now\<rparr>,
                 ev_error = None\<rparr>\<rparr>)
     | Some e \<Rightarrow>
         (case asError e of
            Raised y \<Rightarrow> (Raised y, st2)
          | Returned we \<Rightarrow>
              (Returned \<lparr>wr_success = False, wr_data = None, wr_steps = w_stepResults st2,
                         wr_error = Some we, wr_executionTime = w_clock st2 - now\<rparr>,
               st2\<lparr>w_events := w_events st2 @
                 [\<lparr>ev_type = Workflow_error, ev_timestamp = w_clock st2,
                   ev_data = WorkflowResultData
                     \<lparr>wr_success = False, wr_data = None, wr_steps = w_stepResults st2,
                      wr_error = Some we, wr_executionTime = w_clock st2 - now\<rparr>,
                   ev_error = Some we\<rparr>],
                 w_deliveries := w_deliveries st2 @
                   delivered_to_all (wf_listeners flow)
                     \<lparr>ev_type = Workflow_error, ev_timestamp = w_clock st2,
                      ev_data = WorkflowResultData
                        \<lparr>wr_success = False, wr_data = None, wr_steps = w_stepResults st2,
                         wr_error = Some we, wr_executionTime = w_clock st2 - now\<rparr>,
                      ev_error = Some we\<rparr>\<rparr>)))"
proof -
  obtain st1 where st1: "emit_start flow (seed_state input ic wid now tie) = (None, st1)"
    using emit_start_observing [OF q] by simp
  with w have w': "AgentWorkflow_executeWithTimeout (runSteps flow (wf_steps flow))
              (wc_timeout (wf_config flow)) st1 = (x, st2)" by simp
  show ?thesis
  proof (cases x)
    case None
    then show ?thesis
      by (simp add: AgentWorkflow_execute_def Let_def st1 AgentWorkflow_execute_try_def
          AgentWorkflow_execute_complete_def w'
          AgentWorkflow_emitEvent_observing [OF q])
  next
    case (Some e)
    then show ?thesis
      by (cases "asError e")
         (simp_all add: AgentWorkflow_execute_def Let_def st1 AgentWorkflow_execute_try_def
          AgentWorkflow_execute_complete_def w'
          AgentWorkflow_execute_catch_def AgentWorkflow_emitEvent_observing [OF q])
  qed
qed



text \<open>
  C10, as the code has it. Under \<open>onError: 'continue'\<close>, let the listeners only observe,
  let handlers and conditions throw printable values only, and let the step loop end
  strictly before the workflow timeout. Then \<open>execute\<close> returns \<open>success: true\<close> with no
  error and one step result per registered step, whether or not some of them failed;
  its \<open>data\<close> is \<open>context.data\<close> as the loop has left it, which, when no step writes to
  \<open>context.data\<close> itself, is the value of the last step that succeeded with one (the
  input when there is none); and \<open>workflow:complete\<close> is the last event emitted, handed
  with that result to every listener registered for it.
\<close>

theorem execute_continue_completes:
  assumes "wc_onError (wf_config flow) = Continue"
    and "observing (wf_listeners flow)"
    and "\<forall>stp \<in> set (wf_steps flow). printable_step stp"
    and "w_clock (snd (runSteps flow (wf_steps flow)
                   (snd (emit_start flow (seed_state input ic wid now tie)))))
           < now + timer_delay (int (wc_timeout (wf_config flow)))"
  shows "\<exists>r. fst (AgentWorkflow_execute flow input ic wid now tie) = Returned r \<and>
     wr_success r \<and> wr_error r = None \<and>
     length (wr_steps r) = length (wf_steps flow) \<and>
     wr_data r = Some (ctx_data (w_context (snd (runSteps flow (wf_steps flow)
                   (snd (emit_start flow (seed_state input ic wid now tie))))))) \<and>
     ((\<forall>stp \<in> set (wf_steps flow). keeps_data stp) \<longrightarrow>
        wr_data r = Some (foldl data_after input (wr_steps r))) \<and>
     ev_type (last (w_events (snd (AgentWorkflow_execute flow input ic wid now tie))))
       = Workflow_complete \<and>
     w_deliveries (snd (AgentWorkflow_execute flow input ic wid now tie)) =
       w_deliveries (snd (runSteps flow (wf_steps flow)
                   (snd (emit_start flow (seed_state input ic wid now tie))))) @
       delivered_to_all (wf_listeners flow)
         \<lparr>ev_type = Workflow_complete,
          ev_timestamp = w_clock (snd (runSteps flow (wf_steps flow)
                   (snd (emit_start flow (seed_state input ic wid now tie))))),
          ev_data = WorkflowResultData r, ev_error = None\<rparr>"
proof -
  let ?st1 = "snd (emit_start flow (seed_state input ic wid now tie))"
  have st1: "w_clock ?st1 = now" "w_stepResults ?st1 = []" "ctx_data (w_context ?st1) = input"
    "w_work_first ?st1 = tie"
    by (simp_all add: emit_start_observing [OF assms(2)])
  obtain st' where loop: "runSteps flow (wf_steps flow) ?st1 = (None, st')"
    using runSteps_continue [OF assms(2) assms(1) assms(3), of ?st1]
    by (cases "runSteps flow (wf_steps flow) ?st1") simp
  from runSteps_completed [OF assms(2) loop] obtain rs where
    rs: "w_stepResults st' = rs" "length rs = length (wf_steps flow)"
        "(\<forall>stp \<in> set (wf_steps flow). keeps_data stp) \<longrightarrow>
           ctx_data (w_context st') = foldl data_after input rs"
    by (auto simp: st1)
  from assms(4) loop have "w_clock st' < now + timer_delay (int (wc_timeout (wf_config flow)))" by simp
  with loop have w: "AgentWorkflow_executeWithTimeout (runSteps flow (wf_steps flow))
              (wc_timeout (wf_config flow)) ?st1 =
              (None, st'\<lparr>w_races := w_races st' @ [(now, wc_timeout (wf_config flow))]\<rparr>)"
    by (simp add: AgentWorkflow_executeWithTimeout_def st1 by_deadline_def)
  show ?thesis
    using rs by (simp add: AgentWorkflow_execute_observing [OF assms(2) w] loop)
qed

theorem execute_continue_completes_witness:
  "wc_onError (wf_config ((pipeline (Some Continue) [score_step, broken_step, qualify_step])
      \<lparr>wf_listeners := observer\<rparr>)) = Continue \<and>
   observing (wf_listeners ((pipeline (Some Continue) [score_step, broken_step, qualify_step])
      \<lparr>wf_listeners := observer\<rparr>)) \<and>
   printable_step score_step \<and> printable_step broken_step \<and> printable_step qualify_step \<and>
   keeps_data score_step \<and> keeps_data broken_step \<and> keeps_data qualify_step \<and>
   fst (AgentWorkflow_execute ((pipeline (Some Continue) [score_step, broken_step, qualify_step])
          \<lparr>wf_listeners := observer\<rparr>) (Val 20) None ''wf-1'' 0 False) =
     Returned
       \<lparr>wr_success = True, wr_data = Some (Val 100),
        wr_steps =
          [\<lparr>sr_step = ''score'', sr_success = True, sr_data = Val 65, sr_error = None,
            sr_startedAt = 0, sr_completedAt = 2, sr_duration = 2\<rparr>,
           \<lparr>sr_step = ''enrich'', sr_success = False, sr_data = Undefined,
            sr_error = Some (PlainError ''Error'' ''service down''),
            sr_startedAt = 2, sr_completedAt = 3, sr_duration = 1\<rparr>,
           \<lparr>sr_step = ''qualify'', sr_success = True, sr_data = Val 100, sr_error = None,
            sr_startedAt = 3, sr_completedAt = 6, sr_duration = 3\<rparr>],
        wr_error = None, wr_executionTime = 6\<rparr> \<and>
   ev_type (last (w_events (snd (AgentWorkflow_execute
          ((pipeline (Some Continue) [score_step, broken_step, qualify_step])
          \<lparr>wf_listeners := observer\<rparr>) (Val 20) None ''wf-1'' 0 False)))) = Workflow_complete \<and>
   map (\<lambda>d. (dl_channel d, dl_position d, ev_type (dl_event d)))
     (w_deliveries (snd (AgentWorkflow_execute
          ((pipeline (Some Continue) [score_step, broken_step, qualify_step])
          \<lparr>wf_listeners := observer\<rparr>) (Val 20) None ''wf-1'' 0 False))) =
     [(On_event, 0, Workflow_start),
      (On_event, 0, Step_start), (On_event, 0, Step_complete),
      (On_event, 0, Step_start), (On_event, 0, Step_error),
      (On_event, 0, Step_start), (On_event, 0, Step_complete),
      (On_event, 0, Workflow_complete)]"
proof -
  let ?flow = "(pipeline (Some Continue) [score_step, broken_step, qualify_step])
                 \<lparr>wf_listeners := observer\<rparr>"
  define loop where "loop = snd (runSteps ?flow (wf_steps ?flow)
                   (snd (emit_start ?flow (seed_state (Val 20) None ''wf-1'' 0 False))))"
  define fin where "fin = snd (AgentWorkflow_execute ?flow (Val 20) None ''wf-1'' 0 False)"
  have c: "wc_onError (wf_config ?flow) = Continue"
    by (simp add: pipeline_def new_config_def)
  have q: "observing (wf_listeners ?flow)"
    by (simp add: observing_def observer_def)
  have p: "printable_step score_step" "printable_step broken_step" "printable_step qualify_step"
    by (auto simp: printable_step_def score_step_def broken_step_def qualify_step_def
        split: jsval.splits if_splits)
  have k: "keeps_data score_step" "keeps_data broken_step" "keeps_data qualify_step"
    by (simp_all add: keeps_data_def score_step_def broken_step_def qualify_step_def)
  have ps: "\<forall>stp \<in> set (wf_steps ?flow). printable_step stp"
    using p by (simp add: pipeline_def)
  have t: "w_clock (snd (runSteps ?flow (wf_steps ?flow)
                   (snd (emit_start ?flow (seed_state (Val 20) None ''wf-1'' 0 False)))))
           < 0 + timer_delay (int (wc_timeout (wf_config ?flow)))"
    by (simp add: workflow_run pipeline_steps observer_def)
  have v: "fst (AgentWorkflow_execute ?flow (Val 20) None ''wf-1'' 0 False) =
     Returned
       \<lparr>wr_success = True, wr_data = Some (Val 100),
        wr_steps =
          [\<lparr>sr_step = ''score'', sr_success = True, sr_data = Val 65, sr_error = None,
            sr_startedAt = 0, sr_completedAt = 2, sr_duration = 2\<rparr>,
           \<lparr>sr_step = ''enrich'', sr_success = False, sr_data = Undefined,
            sr_error = Some (PlainError ''Error'' ''service down''),
            sr_startedAt = 2, sr_completedAt = 3, sr_duration = 1\<rparr>,
           \<lparr>sr_step = ''qualify'', sr_success = True, sr_data = Val 100, sr_error = None,
            sr_startedAt = 3, sr_completedAt = 6, sr_duration = 3\<rparr>],
        wr_error = None, wr_executionTime = 6\<rparr>"
    by (simp add: workflow_run pipeline_steps observer_def)
  have l: "map (\<lambda>d. (dl_channel d, dl_position d, ev_type (dl_event d))) (w_deliveries loop) =
     [(On_event, 0, Workflow_start),
      (On_event, 0, Step_start), (On_event, 0, Step_complete),
      (On_event, 0, Step_start), (On_event, 0, Step_error),
      (On_event, 0, Step_start), (On_event, 0, Step_complete)]"
    by (simp add: loop_def workflow_run pipeline_steps observer_def)
  have one: "delivered_to_all observer e =
      [\<lparr>dl_channel = On_event, dl_position = 0, dl_event = e\<rparr>]"
    for e :: "nat workflow_event_data event"
    by (simp add: delivered_to_all_def delivered_def observer_def)
  from execute_continue_completes [OF c q ps t] obtain r where
    r: "fst (AgentWorkflow_execute ?flow (Val 20) None ''wf-1'' 0 False) = Returned r"
      "ev_type (last (w_events fin)) = Workflow_complete"
      "w_deliveries fin = w_deliveries loop @
         delivered_to_all (wf_listeners ?flow)
           \<lparr>ev_type = Workflow_complete, ev_timestamp = w_clock loop,
            ev_data = WorkflowResultData r, ev_error = None\<rparr>"
    unfolding fin_def loop_def by blast
  from r(3) have d: "map (\<lambda>d. (dl_channel d, dl_position d, ev_type (dl_event d))) (w_deliveries fin) =
     [(On_event, 0, Workflow_start),
      (On_event, 0, Step_start), (On_event, 0, Step_complete),
      (On_event, 0, Step_start), (On_event, 0, Step_error),
      (On_event, 0, Step_start), (On_event, 0, Step_complete),
      (On_event, 0, Workflow_complete)]"
    by (simp add: one l)
  from c q p k v r(2) d show ?thesis unfolding fin_def by simp
qed

text \<open>
  C10, as the claim states it, fails. With every step evaluated before the timeout, a
  listener that throws on \<open>workflow:complete\<close> makes \<open>execute\<close> return \<open>success: false\<close>
  (the exception lands in the \<open>catch\<close> of \<open>execute\<close>); and a handler that throws a value
  \<open>String\<close> cannot convert ends the loop, the strategy notwithstanding. And the final
  \<open>data\<close> need not be what the last non-failing handler left: \<open>score\<close> leaves 65, the
  failing handler of \<open>scribble\<close> writes 999 to \<open>context.data\<close>, and 999 is returned.
\<close>

theorem execute_continue_fails:
  "fst (AgentWorkflow_execute
          ((pipeline (Some Continue) [score_step, broken_step, qualify_step])
             \<lparr>wf_listeners := objector Workflow_complete\<rparr>)
          (Val 20) None ''wf-1'' 0 False) =
     Returned
       \<lparr>wr_success = False, wr_data = None,
        wr_steps =
          [\<lparr>sr_step = ''score'', sr_success = True, sr_data = Val 65, sr_error = None,
            sr_startedAt = 0, sr_completedAt = 2, sr_duration = 2\<rparr>,
           \<lparr>sr_step = ''enrich'', sr_success = False, sr_data = Undefined,
            sr_error = Some (PlainError ''Error'' ''service down''),
            sr_startedAt = 2, sr_completedAt = 3, sr_duration = 1\<rparr>,
           \<lparr>sr_step = ''qualify'', sr_success = True, sr_data = Val 100, sr_error = None,
            sr_startedAt = 3, sr_completedAt = 6, sr_duration = 3\<rparr>],
        wr_error = Some (PlainError ''Error'' ''listener failed''), wr_executionTime = 6\<rparr> \<and>
   fst (AgentWorkflow_execute (pipeline (Some Continue) [score_step, opaque_step, qualify_step])
          (Val 20) None ''wf-1'' 0 False) =
     Returned
       \<lparr>wr_success = False, wr_data = None,
        wr_steps =
          [\<lparr>sr_step = ''score'', sr_success = True, sr_data = Val 65, sr_error = None,
            sr_startedAt = 0, sr_completedAt = 2, sr_duration = 2\<rparr>],
        wr_error = Some cannot_convert, wr_executionTime = 3\<rparr> \<and>
   fst (AgentWorkflow_execute (pipeline (Some Continue) [score_step, scribble_step])
          (Val 20) None ''wf-1'' 0 False) =
     Returned
       \<lparr>wr_success = True, wr_data = Some (Val 999),
        wr_steps =
          [\<lparr>sr_step = ''score'', sr_success = True, sr_data = Val 65, sr_error = None,
            sr_startedAt = 0, sr_completedAt = 2, sr_duration = 2\<rparr>,
           \<lparr>sr_step = ''scribble'', sr_success = False, sr_data = Undefined,
            sr_error = Some (PlainError ''Error'' ''gave up''),
            sr_startedAt = 2, sr_completedAt = 3, sr_duration = 1\<rparr>],
        wr_error = None, wr_executionTime = 3\<rparr>"
  by (simp add: workflow_run pipeline_steps objector_def cannot_convert_def)

text \<open>
  C7, as the code has it. Under \<open>onError: 'stop'\<close> (the default), let the listeners only
  observe, let the steps before the \<open>k\<close>-th run to their end (\<open>pre\<close>, which under this
  strategy means each succeeded) and let the \<open>k\<close>-th step \<open>stp\<close> produce a failing result
  \<open>r\<close> strictly before the workflow timeout. Then \<open>execute\<close> returns \<open>success: false\<close>
  with the error of \<open>r\<close> and exactly the \<open>k\<close> step results produced so far; no handler is
  invoked after the \<open>k\<close>-th step (the invocation log is the one that step left, of at
  most \<open>k\<close> entries); and \<open>workflow:error\<close> is the last event emitted, handed with that
  result to every listener registered for it.
\<close>

theorem execute_stop_aborts:
  assumes stop: "wc_onError (wf_config flow) = Stop"
    and q: "observing (wf_listeners flow)"
    and steps: "wf_steps flow = pre @ stp # post"
    and before: "runSteps flow pre (snd (emit_start flow (seed_state input ic wid now tie)))
                   = (None, st2)"
    and fails: "executeStep flow stp st2 = (Returned r, st3)" "\<not> sr_success r"
    and intime: "w_clock st3 < now + timer_delay (int (wc_timeout (wf_config flow)))"
  shows "fst (AgentWorkflow_execute flow input ic wid now tie) =
           Returned \<lparr>wr_success = False, wr_data = None, wr_steps = w_stepResults st2 @ [r],
                     wr_error = sr_error r, wr_executionTime = w_clock st3 - now\<rparr> \<and>
         (\<exists>e. sr_error r = Some e \<and> instanceofError e) \<and>
         length (w_stepResults st2 @ [r]) = Suc (length pre) \<and>
         (\<forall>x \<in> set (w_stepResults st2). sr_success x) \<and>
         w_invoked (snd (AgentWorkflow_execute flow input ic wid now tie)) = w_invoked st3 \<and>
         length (w_invoked st3) \<le> Suc (length pre) \<and>
         ev_type (last (w_events (snd (AgentWorkflow_execute flow input ic wid now tie))))
           = Workflow_error \<and>
         w_deliveries (snd (AgentWorkflow_execute flow input ic wid now tie)) =
           w_deliveries st3 @
           delivered_to_all (wf_listeners flow)
             \<lparr>ev_type = Workflow_error, ev_timestamp = w_clock st3,
              ev_data = WorkflowResultData
                \<lparr>wr_success = False, wr_data = None, wr_steps = w_stepResults st2 @ [r],
                 wr_error = sr_error r, wr_executionTime = w_clock st3 - now\<rparr>,
              ev_error = sr_error r\<rparr>"
proof -
  let ?st1 = "snd (emit_start flow (seed_state input ic wid now tie))"
  have st1: "w_clock ?st1 = now" "w_stepResults ?st1 = []" "w_invoked ?st1 = []"
    "w_work_first ?st1 = tie"
    by (simp_all add: emit_start_observing [OF q])
  from runSteps_completed [OF q before] stop obtain rs where
    rs: "w_stepResults st2 = rs" "length rs = length pre" "\<forall>x \<in> set rs. sr_success x"
      "length (w_invoked st2) \<le> length pre" "w_work_first st2 = tie"
    by (auto simp: st1)
  from executeStep_observing [OF q fails(1)] fails(2) obtain e where
    e: "sr_error r = Some e" "instanceofError e"
    and keep: "w_stepResults st3 = w_stepResults st2"
    and inv: "length (w_invoked st3) \<le> Suc (length (w_invoked st2))"
    by auto
  let ?st4 = "st3\<lparr>w_stepResults := w_stepResults st3 @ [r],
                 w_context := (w_context st3)\<lparr>ctx_history := ctx_history (w_context st3) @ [r]\<rparr>\<rparr>"
  have "runSteps flow (stp # post) st2 = (Some e, ?st4)"
    using fails stop e by (simp add: Let_def thrown_error_def)
  with before have loop: "runSteps flow (wf_steps flow) ?st1 = (Some e, ?st4)"
    by (simp add: steps runSteps_append)
  have w: "AgentWorkflow_executeWithTimeout (runSteps flow (wf_steps flow))
              (wc_timeout (wf_config flow)) ?st1 =
              (Some e, ?st4\<lparr>w_races := w_races ?st4 @ [(now, wc_timeout (wf_config flow))]\<rparr>)"
    using loop intime by (simp add: AgentWorkflow_executeWithTimeout_def st1 by_deadline_def)
  show ?thesis
    using rs e keep inv
    by (simp add: AgentWorkflow_execute_observing [OF q w] asError_id)
qed

theorem execute_stop_aborts_witness:
  "wc_onError (wf_config ((pipeline None [validate_step, score_step, qualify_step])
      \<lparr>wf_listeners := observer\<rparr>)) = Stop \<and>
   fst (AgentWorkflow_execute ((pipeline None [validate_step, score_step, qualify_step])
          \<lparr>wf_listeners := observer\<rparr>) (Val 0) None ''wf-1'' 0 False) =
     Returned
       \<lparr>wr_success = False, wr_data = None,
        wr_steps =
          [\<lparr>sr_step = ''validate'', sr_success = True, sr_data = Undefined, sr_error = None,
            sr_startedAt = 0, sr_completedAt = 1, sr_duration = 1\<rparr>,
           \<lparr>sr_step = ''score'', sr_success = False, sr_data = Undefined,
            sr_error = Some (PlainError ''Error'' ''Nothing to score''),
            sr_startedAt = 1, sr_completedAt = 3, sr_duration = 2\<rparr>],
        wr_error = Some (PlainError ''Error'' ''Nothing to score''), wr_executionTime = 3\<rparr> \<and>
   w_invoked (snd (AgentWorkflow_execute ((pipeline None [validate_step, score_step, qualify_step])
          \<lparr>wf_listeners := observer\<rparr>) (Val 0) None ''wf-1'' 0 False))
     = [(0, ''validate''), (1, ''score'')] \<and>
   map (\<lambda>d. (dl_channel d, dl_position d, ev_type (dl_event d)))
     (w_deliveries (snd (AgentWorkflow_execute
          ((pipeline None [validate_step, score_step, qualify_step])
          \<lparr>wf_listeners := observer\<rparr>) (Val 0) None ''wf-1'' 0 False))) =
     [(On_event, 0, Workflow_start), (On_event, 0, Step_start), (On_event, 0, Step_complete),
      (On_event, 0, Step_start), (On_event, 0, Step_error), (On_event, 0, Workflow_error)]"
proof -
  let ?flow = "(pipeline None [validate_step, score_step, qualify_step])
                 \<lparr>wf_listeners := observer\<rparr>"
  let ?r = "\<lparr>sr_step = ''score'', sr_success = False, sr_data = Undefined,
            sr_error = Some (PlainError ''Error'' ''Nothing to score''),
            sr_startedAt = 1, sr_completedAt = 3, sr_duration = 2\<rparr> :: nat step_result"
  define st1 where "st1 = snd (emit_start ?flow (seed_state (Val 0) None ''wf-1'' 0 False))"
  define st2 where "st2 = snd (runSteps ?flow [validate_step] st1)"
  define st3 where "st3 = snd (executeStep ?flow score_step st2)"
  define fin where "fin = snd (AgentWorkflow_execute ?flow (Val 0) None ''wf-1'' 0 False)"
  have q: "observing (wf_listeners ?flow)"
    by (simp add: observing_def observer_def)
  have stop: "wc_onError (wf_config ?flow) = Stop"
    by (simp add: pipeline_def new_config_def)
  have steps: "wf_steps ?flow = [validate_step] @ score_step # [qualify_step]"
    by (simp add: pipeline_def)
  have "fst (runSteps ?flow [validate_step] st1) = None"
    by (simp add: st1_def workflow_run pipeline_steps observer_def)
  then have before: "runSteps ?flow [validate_step]
      (snd (emit_start ?flow (seed_state (Val 0) None ''wf-1'' 0 False))) = (None, st2)"
    by (simp add: prod_eq_iff st2_def st1_def)
  have "fst (executeStep ?flow score_step st2) = Returned ?r"
    by (simp add: st2_def st1_def workflow_run pipeline_steps observer_def)
  then have fails: "executeStep ?flow score_step st2 = (Returned ?r, st3)"
    by (simp add: prod_eq_iff st3_def)
  have bad: "\<not> sr_success ?r" by simp
  have intime: "w_clock st3 < 0 + timer_delay (int (wc_timeout (wf_config ?flow)))"
    by (simp add: st3_def st2_def st1_def workflow_run pipeline_steps observer_def)
  have vals: "w_stepResults st2 =
      [\<lparr>sr_step = ''validate'', sr_success = True, sr_data = Undefined, sr_error = None,
            sr_startedAt = 0, sr_completedAt = 1, sr_duration = 1\<rparr>]"
    "w_invoked st3 = [(0, ''validate''), (1, ''score'')]" "w_clock st3 = 3"
    "map (\<lambda>d. (dl_channel d, dl_position d, ev_type (dl_event d))) (w_deliveries st3) =
     [(On_event, 0, Workflow_start), (On_event, 0, Step_start), (On_event, 0, Step_complete),
      (On_event, 0, Step_start), (On_event, 0, Step_error)]"
    by (simp_all add: st3_def st2_def st1_def workflow_run pipeline_steps observer_def)
  have one: "delivered_to_all observer e =
      [\<lparr>dl_channel = On_event, dl_position = 0, dl_event = e\<rparr>]"
    for e :: "nat workflow_event_data event"
    by (simp add: delivered_to_all_def delivered_def observer_def)
  note main = execute_stop_aborts [OF stop q steps before fails bad intime]
  from main have res: "fst (AgentWorkflow_execute ?flow (Val 0) None ''wf-1'' 0 False) =
           Returned \<lparr>wr_success = False, wr_data = None, wr_steps = w_stepResults st2 @ [?r],
                     wr_error = sr_error ?r, wr_executionTime = w_clock st3 - 0\<rparr>"
    by (rule conjunct1)
  from main have inv: "w_invoked fin = w_invoked st3"
    unfolding fin_def by blast
  from main have "w_deliveries fin =
           w_deliveries st3 @
           delivered_to_all (wf_listeners ?flow)
             \<lparr>ev_type = Workflow_error, ev_timestamp = w_clock st3,
              ev_data = WorkflowResultData
                \<lparr>wr_success = False, wr_data = None, wr_steps = w_stepResults st2 @ [?r],
                 wr_error = sr_error ?r, wr_executionTime = w_clock st3 - 0\<rparr>,
              ev_error = sr_error ?r\<rparr>"
    unfolding fin_def by blast
  then have del: "map (\<lambda>d. (dl_channel d, dl_position d, ev_type (dl_event d))) (w_deliveries fin) =
     [(On_event, 0, Workflow_start), (On_event, 0, Step_start), (On_event, 0, Step_complete),
      (On_event, 0, Step_start), (On_event, 0, Step_error), (On_event, 0, Workflow_error)]"
    by (simp add: one vals(4))
  from res inv del stop vals(1,2,3) show ?thesis
    unfolding fin_def by simp
qed

text \<open>
  C7, as the claim states it, fails. With a listener that throws on \<open>workflow:error\<close>,
  \<open>execute\<close> raises the listener's exception instead of returning the result. And when
  the failing step settles after the workflow timeout, \<open>execute\<close> has returned the
  \<open>TIMEOUT\<close> error with the results of the steps before it: here \<open>score\<close> fails at 3 ms
  under a timeout of 2 ms.
\<close>

theorem execute_stop_raises:
  "fst (AgentWorkflow_execute ((pipeline None [validate_step, score_step, qualify_step])
          \<lparr>wf_listeners := objector Workflow_error\<rparr>) (Val 0) None ''wf-1'' 0 False) =
     Raised (PlainError ''Error'' ''listener failed'') \<and>
   fst (AgentWorkflow_execute hasty_pipeline (Val 0) None ''wf-1'' 0 False) =
     Returned
       \<lparr>wr_success = False, wr_data = None,
        wr_steps =
          [\<lparr>sr_step = ''validate'', sr_success = True, sr_data = Undefined, sr_error = None,
            sr_startedAt = 0, sr_completedAt = 1, sr_duration = 1\<rparr>],
        wr_error = Some (AgentError ''Workflow timeout'' ''TIMEOUT'' None),
        wr_executionTime = 2\<rparr>"
  by (simp add: workflow_run pipeline_steps hasty_pipeline_def objector_def)

lemma AgentWorkflow_emitEvent_config:
  "AgentWorkflow_emitEvent (flow\<lparr>wf_config := c\<rparr>) = AgentWorkflow_emitEvent flow"
  by (intro ext) (simp add: AgentWorkflow_emitEvent_def)

lemma executeStep_config [simp]:
  "executeStep (flow\<lparr>wf_config := c\<rparr>) stp st = executeStep flow stp st"
  unfolding executeStep_def executeStep_try_def executeStep_handler_def executeStep_catch_def
    AgentWorkflow_emitEvent_config
  by (rule refl)

lemma runSteps_rollback_stop:
  "runSteps (flow\<lparr>wf_config := (wf_config flow)\<lparr>wc_onError := Stop\<rparr>\<rparr>) steps st = (x, s) \<Longrightarrow>
   runSteps (flow\<lparr>wf_config := (wf_config flow)\<lparr>wc_onError := Rollback\<rparr>\<rparr>) steps st = (x, s) \<or>
   runSteps (flow\<lparr>wf_config := (wf_config flow)\<lparr>wc_onError := Rollback\<rparr>\<rparr>) steps st =
     (x, rollback (w_stepResults s) s)"
proof (induction steps arbitrary: st)
  case Nil
  then show ?case by simp
next
  case (Cons stp rest)
  show ?case
  proof (cases "executeStep flow stp st")
    case (Pair out st1)
    show ?thesis
    proof (cases out)
      case (Raised y)
      with Pair Cons.prems show ?thesis by simp
    next
      case (Returned r)
      let ?st2 = "st1\<lparr>w_stepResults := w_stepResults st1 @ [r],
                 w_context := (w_context st1)\<lparr>ctx_history := ctx_history (w_context st1) @ [r]\<rparr>\<rparr>"
      show ?thesis
      proof (cases "sr_success r")
        case True
        with Pair Returned Cons.prems
        have "runSteps (flow\<lparr>wf_config := (wf_config flow)\<lparr>wc_onError := Stop\<rparr>\<rparr>) rest ?st2 = (x, s)"
          by (simp add: Let_def)
        from Cons.IH [OF this] Pair Returned True show ?thesis by (simp add: Let_def)
      next
        case False
        with Pair Returned Cons.prems show ?thesis by (auto simp: Let_def)
      qed
    qed
  qed
qed

lemma emit_start_config [simp]:
  "emit_start (flow\<lparr>wf_config := (wf_config flow)\<lparr>wc_onError := s\<rparr>\<rparr>) st = emit_start flow st"
  by (simp add: emit_start_def AgentWorkflow_emitEvent_def)

lemma AgentWorkflow_emitEvent_console:
  "AgentWorkflow_emitEvent flow e (st\<lparr>w_console := c\<rparr>) =
     (case AgentWorkflow_emitEvent flow e st of (d, x, s) \<Rightarrow> (d, x, s\<lparr>w_console := c\<rparr>))"
  "AgentWorkflow_emitEvent flow e st = (d, x, s) \<Longrightarrow> w_console s = w_console st"
  by (auto simp: AgentWorkflow_emitEvent_def split: prod.splits)

lemma AgentWorkflow_execute_complete_config:
  "AgentWorkflow_execute_complete (flow\<lparr>wf_config := c\<rparr>) = AgentWorkflow_execute_complete flow"
  unfolding AgentWorkflow_execute_complete_def [abs_def] AgentWorkflow_emitEvent_config
  by (rule refl)

lemma AgentWorkflow_execute_catch_config:
  "AgentWorkflow_execute_catch (flow\<lparr>wf_config := c\<rparr>) = AgentWorkflow_execute_catch flow"
  unfolding AgentWorkflow_execute_catch_def [abs_def] AgentWorkflow_emitEvent_config
  by (rule refl)

lemma AgentWorkflow_execute_complete_console:
  "AgentWorkflow_execute_complete flow t0 (st\<lparr>w_console := c\<rparr>) =
     (fst (AgentWorkflow_execute_complete flow t0 st),
      (snd (AgentWorkflow_execute_complete flow t0 st))\<lparr>w_console := c\<rparr>) \<and>
   w_console (snd (AgentWorkflow_execute_complete flow t0 st)) = w_console st"
proof -
  let ?ev = "\<lparr>ev_type = Workflow_complete, ev_timestamp = w_clock st,
              ev_data = WorkflowResultData
                \<lparr>wr_success = True, wr_data = Some (ctx_data (w_context st)),
                 wr_steps = w_stepResults st, wr_error = None,
                 wr_executionTime = w_clock st - t0\<rparr>, ev_error = None\<rparr>"
  obtain d x s where e: "AgentWorkflow_emitEvent flow ?ev st = (d, x, s)"
    by (cases "AgentWorkflow_emitEvent flow ?ev st")
  from AgentWorkflow_emitEvent_console(2) [OF e] e show ?thesis
    by (cases x)
       (simp_all add: AgentWorkflow_execute_complete_def Let_def
          AgentWorkflow_emitEvent_console(1))
qed

lemma AgentWorkflow_execute_catch_console:
  "AgentWorkflow_execute_catch flow t0 err (st\<lparr>w_console := c\<rparr>) =
     (fst (AgentWorkflow_execute_catch flow t0 err st),
      (snd (AgentWorkflow_execute_catch flow t0 err st))\<lparr>w_console := c\<rparr>) \<and>
   w_console (snd (AgentWorkflow_execute_catch flow t0 err st)) = w_console st"
proof (cases "asError err")
  case (Raised y)
  then show ?thesis by (simp add: AgentWorkflow_execute_catch_def)
next
  case (Returned we)
  let ?ev = "\<lparr>ev_type = Workflow_error, ev_timestamp = w_clock st,
              ev_data = WorkflowResultData
                \<lparr>wr_success = False, wr_data = None, wr_steps = w_stepResults st,
                 wr_error = Some we, wr_executionTime = w_clock st - t0\<rparr>,
              ev_error = Some we\<rparr>"
  obtain d x s where e: "AgentWorkflow_emitEvent flow ?ev st = (d, x, s)"
    by (cases "AgentWorkflow_emitEvent flow ?ev st")
  from AgentWorkflow_emitEvent_console(2) [OF e] e Returned show ?thesis
    by (cases x)
       (simp_all add: AgentWorkflow_execute_catch_def Let_def
          AgentWorkflow_emitEvent_console(1))
qed

lemma race_rollback_stop:
  assumes S: "AgentWorkflow_executeWithTimeout
                (runSteps (flow\<lparr>wf_config := (wf_config flow)\<lparr>wc_onError := Stop\<rparr>\<rparr>) steps) T st
              = (y, u)"
  shows "\<exists>c. AgentWorkflow_executeWithTimeout
                (runSteps (flow\<lparr>wf_config := (wf_config flow)\<lparr>wc_onError := Rollback\<rparr>\<rparr>) steps) T st
              = (y, u\<lparr>w_console := c\<rparr>) \<and>
             (c = w_console u \<or> (\<exists>t. c = w_console u @ [(t, Warn ''Rollback not implemented yet'')]))"
proof -
  let ?S = "flow\<lparr>wf_config := (wf_config flow)\<lparr>wc_onError := Stop\<rparr>\<rparr>"
  let ?R = "flow\<lparr>wf_config := (wf_config flow)\<lparr>wc_onError := Rollback\<rparr>\<rparr>"
  let ?due = "by_deadline (w_work_first st) (w_clock st + timer_delay (int T))"
  obtain x s where s: "runSteps ?S steps st = (x, s)" by (cases "runSteps ?S steps st")
  from runSteps_rollback_stop [OF s]
  consider (same) "runSteps ?R steps st = (x, s)"
    | (warned) "runSteps ?R steps st = (x, rollback (w_stepResults s) s)" by blast
  then show ?thesis
  proof cases
    case same
    with S have "AgentWorkflow_executeWithTimeout (runSteps ?R steps) T st
                   = (y, u\<lparr>w_console := w_console u\<rparr>)"
      using s by (simp add: AgentWorkflow_executeWithTimeout_def)
    then show ?thesis by blast
  next
    case warned
    show ?thesis
    proof (cases "?due (w_clock s)")
      case True
      with S s have u: "y = x" "u = s\<lparr>w_races := w_races s @ [(w_clock st, T)]\<rparr>"
        by (simp_all add: AgentWorkflow_executeWithTimeout_def)
      with warned True have "AgentWorkflow_executeWithTimeout (runSteps ?R steps) T st
          = (y, u\<lparr>w_console := w_console u @ [(w_clock s, Warn ''Rollback not implemented yet'')]\<rparr>)"
        by (simp add: AgentWorkflow_executeWithTimeout_def rollback_def)
      then show ?thesis by blast
    next
      case False
      with S s have u: "y = Some (AgentError ''Workflow timeout'' ''TIMEOUT'' None)"
        "u = (overtaken_at (w_clock st + timer_delay (int T)) s)\<lparr>w_races := w_races s @ [(w_clock st, T)]\<rparr>"
        by (simp_all add: AgentWorkflow_executeWithTimeout_def)
      show ?thesis
      proof (cases "by_deadline (w_work_first s) (w_clock st + timer_delay (int T)) (w_clock s)")
        case late: False
        with u warned False have "AgentWorkflow_executeWithTimeout (runSteps ?R steps) T st
            = (y, u\<lparr>w_console := w_console u\<rparr>)"
          by (simp add: AgentWorkflow_executeWithTimeout_def rollback_def overtaken_at_def)
        then show ?thesis by blast
      next
        case early: True
        with u warned False have "AgentWorkflow_executeWithTimeout (runSteps ?R steps) T st
            = (y, u\<lparr>w_console := w_console u @
                      [(w_clock s, Warn ''Rollback not implemented yet'')]\<rparr>)"
          by (simp add: AgentWorkflow_executeWithTimeout_def rollback_def overtaken_at_def)
        then show ?thesis by blast
      qed
    qed
  qed
qed

text \<open>
  C8. For every workflow, input, listeners and timing, \<open>execute\<close> under
  \<open>onError: 'rollback'\<close> ends as under \<open>onError: 'stop'\<close>: the same completion (the same
  result: success flag, steps, error, data, execution time), and the same final state
  up to the console, which holds at most one more line, the warning of \<open>rollback\<close>.
\<close>

theorem rollback_behaves_as_stop:
  "fst (AgentWorkflow_execute (flow\<lparr>wf_config := (wf_config flow)\<lparr>wc_onError := Rollback\<rparr>\<rparr>)
          input ic wid now tie) =
   fst (AgentWorkflow_execute (flow\<lparr>wf_config := (wf_config flow)\<lparr>wc_onError := Stop\<rparr>\<rparr>)
          input ic wid now tie) \<and>
   (snd (AgentWorkflow_execute (flow\<lparr>wf_config := (wf_config flow)\<lparr>wc_onError := Rollback\<rparr>\<rparr>)
          input ic wid now tie))
      \<lparr>w_console := w_console (snd (AgentWorkflow_execute
          (flow\<lparr>wf_config := (wf_config flow)\<lparr>wc_onError := Stop\<rparr>\<rparr>) input ic wid now tie))\<rparr> =
   snd (AgentWorkflow_execute (flow\<lparr>wf_config := (wf_config flow)\<lparr>wc_onError := Stop\<rparr>\<rparr>)
          input ic wid now tie) \<and>
   (w_console (snd (AgentWorkflow_execute
        (flow\<lparr>wf_config := (wf_config flow)\<lparr>wc_onError := Rollback\<rparr>\<rparr>) input ic wid now tie)) =
    w_console (snd (AgentWorkflow_execute
        (flow\<lparr>wf_config := (wf_config flow)\<lparr>wc_onError := Stop\<rparr>\<rparr>) input ic wid now tie)) \<or>
    (\<exists>t. w_console (snd (AgentWorkflow_execute
        (flow\<lparr>wf_config := (wf_config flow)\<lparr>wc_onError := Rollback\<rparr>\<rparr>) input ic wid now tie)) =
      w_console (snd (AgentWorkflow_execute
        (flow\<lparr>wf_config := (wf_config flow)\<lparr>wc_onError := Stop\<rparr>\<rparr>) input ic wid now tie)) @
      [(t, Warn ''Rollback not implemented yet'')]))"
proof -
  let ?S = "flow\<lparr>wf_config := (wf_config flow)\<lparr>wc_onError := Stop\<rparr>\<rparr>"
  let ?R = "flow\<lparr>wf_config := (wf_config flow)\<lparr>wc_onError := Rollback\<rparr>\<rparr>"
  obtain x0 st1 where start: "emit_start flow (seed_state input ic wid now tie) = (x0, st1)"
    by (cases "emit_start flow (seed_state input ic wid now tie)")
  show ?thesis
  proof (cases x0)
    case (Some x)
    with start show ?thesis by (simp add: AgentWorkflow_execute_def)
  next
    case None
    obtain y u where S: "AgentWorkflow_executeWithTimeout (runSteps ?S (wf_steps flow))
                            (wc_timeout (wf_config flow)) st1 = (y, u)"
      by (cases "AgentWorkflow_executeWithTimeout (runSteps ?S (wf_steps flow))
                            (wc_timeout (wf_config flow)) st1")
    from race_rollback_stop [OF S] obtain c where
      R: "AgentWorkflow_executeWithTimeout (runSteps ?R (wf_steps flow))
                            (wc_timeout (wf_config flow)) st1 = (y, u\<lparr>w_console := c\<rparr>)"
      and c: "c = w_console u \<or> (\<exists>t. c = w_console u @ [(t, Warn ''Rollback not implemented yet'')])"
      by blast
    have fS: "AgentWorkflow_execute ?S input ic wid now tie =
               (case AgentWorkflow_execute_try ?S now st1 of
                  (Inr result, st2) \<Rightarrow> (Returned result, st2)
                | (Inl error, st2) \<Rightarrow> AgentWorkflow_execute_catch ?S now error st2)"
      by (simp add: AgentWorkflow_execute_def start None)
    have fR: "AgentWorkflow_execute ?R input ic wid now tie =
               (case AgentWorkflow_execute_try ?R now st1 of
                  (Inr result, st2) \<Rightarrow> (Returned result, st2)
                | (Inl error, st2) \<Rightarrow> AgentWorkflow_execute_catch ?R now error st2)"
      by (simp add: AgentWorkflow_execute_def start None)
    have listeners: "AgentWorkflow_execute_complete ?R = AgentWorkflow_execute_complete flow"
      "AgentWorkflow_execute_complete ?S = AgentWorkflow_execute_complete flow"
      "AgentWorkflow_execute_catch ?R = AgentWorkflow_execute_catch flow"
      "AgentWorkflow_execute_catch ?S = AgentWorkflow_execute_catch flow"
      by (simp_all add: AgentWorkflow_execute_complete_config AgentWorkflow_execute_catch_config)
    have "fst (AgentWorkflow_execute ?R input ic wid now tie) =
            fst (AgentWorkflow_execute ?S input ic wid now tie) \<and>
          snd (AgentWorkflow_execute ?R input ic wid now tie) =
            (snd (AgentWorkflow_execute ?S input ic wid now tie))\<lparr>w_console := c\<rparr> \<and>
          w_console (snd (AgentWorkflow_execute ?S input ic wid now tie)) = w_console u"
    proof (cases y)
      case None
      obtain t s where t: "AgentWorkflow_execute_complete flow now u = (t, s)"
        by (cases "AgentWorkflow_execute_complete flow now u")
      note k = AgentWorkflow_execute_complete_console [where flow = flow and ?t0.0 = now and st = u and c = c]
      show ?thesis
      proof (cases t)
        case (Inr r)
        with t k show ?thesis
          unfolding fS fR by (simp add: AgentWorkflow_execute_try_def S R None listeners)
      next
        case (Inl x)
        with t k AgentWorkflow_execute_catch_console [where flow = flow and ?t0.0 = now and err = x and st = s and c = c] show ?thesis
          unfolding fS fR
          by (simp add: AgentWorkflow_execute_try_def S R None listeners split: prod.splits)
      qed
    next
      case (Some x)
      with AgentWorkflow_execute_catch_console [where flow = flow and ?t0.0 = now and err = x and st = u and c = c] show ?thesis
        unfolding fS fR
        by (simp add: AgentWorkflow_execute_try_def S R listeners split: prod.splits)
    qed
    with c show ?thesis by auto
  qed
qed

theorem rollback_behaves_as_stop_witness:
  "fst (AgentWorkflow_execute (pipeline (Some Rollback) [validate_step, score_step, qualify_step])
          (Val 0) None ''wf-1'' 0 False) =
   fst (AgentWorkflow_execute (pipeline (Some Stop) [validate_step, score_step, qualify_step])
          (Val 0) None ''wf-1'' 0 False) \<and>
   w_console (snd (AgentWorkflow_execute
          (pipeline (Some Rollback) [validate_step, score_step, qualify_step])
          (Val 0) None ''wf-1'' 0 False)) = [(3, Warn ''Rollback not implemented yet'')] \<and>
   w_console (snd (AgentWorkflow_execute
          (pipeline (Some Stop) [validate_step, score_step, qualify_step])
          (Val 0) None ''wf-1'' 0 False)) = []"
proof -
  let ?steps = "[validate_step, score_step, qualify_step]"
  have R: "(pipeline None ?steps)\<lparr>wf_config := (wf_config (pipeline None ?steps))\<lparr>wc_onError := Rollback\<rparr>\<rparr>
             = pipeline (Some Rollback) ?steps"
    and S: "(pipeline None ?steps)\<lparr>wf_config := (wf_config (pipeline None ?steps))\<lparr>wc_onError := Stop\<rparr>\<rparr>
             = pipeline (Some Stop) ?steps"
    by (simp_all add: pipeline_def new_config_def)
  have c: "w_console (snd (AgentWorkflow_execute (pipeline (Some Rollback) ?steps)
              (Val 0) None ''wf-1'' 0 False)) = [(3, Warn ''Rollback not implemented yet'')]"
    "w_console (snd (AgentWorkflow_execute (pipeline (Some Stop) ?steps)
              (Val 0) None ''wf-1'' 0 False)) = []"
    by (simp_all add: workflow_run pipeline_steps)
  from rollback_behaves_as_stop [where flow = "pipeline None ?steps" and input = "Val 0"
      and ic = None and wid = "''wf-1''" and now = 0 and tie = False] c
  show ?thesis unfolding R S by simp
qed

section \<open>A skipped step\<close>

text \<open>
  C3. The claim holds but for its last part. With the lead scored 50, the condition of
  \<open>qualify\<close> is false: the step result is \<open>success: true, data: null\<close>, the handler is not
  invoked and \<open>context.data\<close> stays 50; but \<open>executeStep\<close> returns from inside the
  condition check, before the statement that emits \<open>step:complete\<close>, so the only event
  of the step is \<open>step:start\<close>. (Every skipped step goes this way, as shown with the
  step loop above.)
\<close>

theorem executeStep_skip_emits_no_complete:
  "fst (executeStep (pipeline None [validate_step, score_step, qualify_step]) qualify_step
          ((seed_state (Val 50) None ''wf-1'' 0 tie)\<lparr>w_clock := 3\<rparr>)) =
     Returned \<lparr>sr_step = ''qualify'', sr_success = True, sr_data = Null, sr_error = None,
               sr_startedAt = 3, sr_completedAt = 3, sr_duration = 0\<rparr> \<and>
   map ev_type (w_events (snd (executeStep
          (pipeline None [validate_step, score_step, qualify_step]) qualify_step
          ((seed_state (Val 50) None ''wf-1'' 0 tie)\<lparr>w_clock := 3\<rparr>)))) = [Step_start] \<and>
   w_invoked (snd (executeStep
          (pipeline None [validate_step, score_step, qualify_step]) qualify_step
          ((seed_state (Val 50) None ''wf-1'' 0 tie)\<lparr>w_clock := 3\<rparr>))) = [] \<and>
   ctx_data (w_context (snd (executeStep
          (pipeline None [validate_step, score_step, qualify_step]) qualify_step
          ((seed_state (Val 50) None ''wf-1'' 0 tie)\<lparr>w_clock := 3\<rparr>)))) = Val 50"
  by (simp add: workflow_run pipeline_steps)

section \<open>What \<open>execute\<close> returns, and when it raises\<close>




section \<open>Listener exceptions\<close>

lemma upt_shift: "[i..<i + Suc n] = i # [Suc i..<Suc i + n]"
  by (simp add: upt_conv_Cons del: upt_Suc)

lemma emit_first_thrower:
  "all_return before e \<Longrightarrow> l (e\<lparr>ev_data := payload_after before e\<rparr>) = (d, Some x) \<Longrightarrow>
   \<exists>ds. emit ch i (before @ l # after) e = (d, Some x, ds) \<and>
        map (\<lambda>y. (dl_channel y, dl_position y)) ds =
          map (\<lambda>j. (ch, j)) [i..<i + Suc (length before)]"
proof (induction before arbitrary: e i)
  case Nil
  then show ?case by simp
next
  case (Cons l' ls)
  obtain d0 where l': "l' e = (d0, None)"
    using Cons.prems(1) by (cases "l' e") simp
  from Cons.prems l' have a: "all_return ls (e\<lparr>ev_data := d0\<rparr>)"
    and t: "l ((e\<lparr>ev_data := d0\<rparr>)\<lparr>ev_data := payload_after ls (e\<lparr>ev_data := d0\<rparr>)\<rparr>) = (d, Some x)"
    by simp_all
  from Cons.IH [OF a t, of "Suc i"] obtain ds where
    ds: "emit ch (Suc i) (ls @ l # after) (e\<lparr>ev_data := d0\<rparr>) = (d, Some x, ds)"
      "map (\<lambda>y. (dl_channel y, dl_position y)) ds =
          map (\<lambda>j. (ch, j)) [Suc i..<Suc i + Suc (length ls)]"
    by blast
  have "[i..<i + Suc (length (l' # ls))] = i # [Suc i..<Suc i + Suc (length ls)]"
    using upt_shift [of i "length (l' # ls)"] by simp
  with ds l' show ?case by (simp del: upt_Suc)
qed

lemma emit_all_return:
  "all_return ls e \<Longrightarrow>
   \<exists>ds. emit ch i ls e = (payload_after ls e, None, ds) \<and>
        map (\<lambda>y. (dl_channel y, dl_position y)) ds = map (\<lambda>j. (ch, j)) [i..<i + length ls]"
proof (induction ls arbitrary: e i)
  case Nil
  then show ?case by simp
next
  case (Cons l' ls)
  obtain d0 where l': "l' e = (d0, None)"
    using Cons.prems(1) by (cases "l' e") simp
  from Cons.prems l' have a: "all_return ls (e\<lparr>ev_data := d0\<rparr>)" by simp
  from Cons.IH [OF a, of "Suc i"] obtain ds where
    ds: "emit ch (Suc i) ls (e\<lparr>ev_data := d0\<rparr>) =
           (payload_after ls (e\<lparr>ev_data := d0\<rparr>), None, ds)"
      "map (\<lambda>y. (dl_channel y, dl_position y)) ds =
          map (\<lambda>j. (ch, j)) [Suc i..<Suc i + length ls]"
    by blast
  have "[i..<i + length (l' # ls)] = i # [Suc i..<Suc i + length ls]"
    using upt_shift [of i "length ls"] by simp
  with ds l' show ?case by (simp del: upt_Suc)
qed

lemma emitEvent_first_thrower:
  assumes "all_return before e"
    and "l (e\<lparr>ev_data := payload_after before e\<rparr>) = (d, Some x)"
  shows "\<exists>ds. emitEvent \<lparr>on_event = before @ l # after, on_type = typed\<rparr> e = (d, Some x, ds) \<and>
        map (\<lambda>y. (dl_channel y, dl_position y)) ds =
          map (\<lambda>j. (On_event, j)) [0..<Suc (length before)]"
  using emit_first_thrower [where before = before and e = e and l = l and d = d and x = x
      and ch = On_event and i = 0 and after = after] assms
  by (auto simp: emitEvent_def)

lemma emitEvent_first_typed_thrower:
  assumes "all_return evs e"
    and "typed (ev_type e) = before @ l # after"
    and "all_return before (e\<lparr>ev_data := payload_after evs e\<rparr>)"
    and "l (e\<lparr>ev_data := payload_after before (e\<lparr>ev_data := payload_after evs e\<rparr>)\<rparr>)
           = (d, Some x)"
  shows "\<exists>ds. emitEvent \<lparr>on_event = evs, on_type = typed\<rparr> e = (d, Some x, ds) \<and>
        map (\<lambda>y. (dl_channel y, dl_position y)) ds =
          map (\<lambda>j. (On_event, j)) [0..<length evs] @
          map (\<lambda>j. (On_type (ev_type e), j)) [0..<Suc (length before)]"
proof -
  from emit_all_return [OF assms(1), of On_event 0] obtain ds1 where
    one: "emit On_event 0 evs e = (payload_after evs e, None, ds1)"
      "map (\<lambda>y. (dl_channel y, dl_position y)) ds1 = map (\<lambda>j. (On_event, j)) [0..<length evs]"
    by auto
  let ?e = "e\<lparr>ev_data := payload_after evs e\<rparr>"
  from assms(4) have "l (?e\<lparr>ev_data := payload_after before ?e\<rparr>) = (d, Some x)" by simp
  from emit_first_thrower [where before = before and e = ?e and l = l and d = d and x = x
      and ch = "On_type (ev_type e)" and i = 0 and after = after] assms(3) this obtain ds2 where
    two: "emit (On_type (ev_type e)) 0 (before @ l # after) ?e = (d, Some x, ds2)"
      "map (\<lambda>y. (dl_channel y, dl_position y)) ds2 =
         map (\<lambda>j. (On_type (ev_type e), j)) [0..<Suc (length before)]"
    by auto
  show ?thesis using one two assms(2) by (simp add: emitEvent_def)
qed

lemma start_exception_leaves_execute:
  "fst (snd (emitEvent (wf_listeners flow)
          \<lparr>ev_type = Workflow_start, ev_timestamp = now,
           ev_data = WorkflowInfo (wc_name (wf_config flow)) (length (wf_steps flow)),
           ev_error = None\<rparr>)) = Some x \<Longrightarrow>
   fst (AgentWorkflow_execute flow input ic wid now tie) = Raised x"
  by (auto simp: AgentWorkflow_execute_def emit_start_def AgentWorkflow_emitEvent_def
      seed_state_def split: prod.splits)

lemma workflow_error_exception_leaves_execute:
  assumes "emit_start flow (seed_state input ic wid now tie) = (None, st1)"
    and "AgentWorkflow_execute_try flow now st1 = (Inl error, st2)"
    and "asError error = Returned we"
    and "fst (snd (emitEvent (wf_listeners flow)
          \<lparr>ev_type = Workflow_error, ev_timestamp = w_clock st2,
           ev_data = WorkflowResultData
             \<lparr>wr_success = False, wr_data = None, wr_steps = w_stepResults st2,
              wr_error = Some we, wr_executionTime = w_clock st2 - now\<rparr>,
           ev_error = Some we\<rparr>)) = Some x"
  shows "fst (AgentWorkflow_execute flow input ic wid now tie) = Raised x"
  using assms
  by (auto simp: AgentWorkflow_execute_def AgentWorkflow_execute_catch_def Let_def
      AgentWorkflow_emitEvent_def split: prod.splits)

lemma agent_error_exception_leaves_execute:
  assumes "ensure_initialized ag st = (None, st0)"
    and "BaseAgent_execute_try ag input (new_executionContext input partial cid (a_clock st0))
           (a_clock st0) st0 = (Inl error, st1)"
    and "normalizeError error = Returned agentError"
    and "fst (snd (emitEvent (listeners ag)
          \<lparr>ev_type = Agent_error, ev_timestamp = a_clock st1,
           ev_data = AgentResultData
             \<lparr>ar_success = False, ar_data = None, ar_error = Some agentError,
              ar_executionTime = a_clock st1 - a_clock st0,
              ar_metadata = ctx_metadata (new_executionContext input partial cid (a_clock st0))\<rparr>,
           ev_error = Some agentError\<rparr>)) = Some x"
  shows "fst (BaseAgent_execute ag input partial cid st) = Raised x"
  using assms
  by (auto simp: BaseAgent_execute_def BaseAgent_execute_catch_def Let_def
      BaseAgent_emitEvent_def split: prod.splits)

text \<open>
  C2, as the code has it. Nothing in \<open>emitEvent\<close> catches. When the listeners before it
  have returned and a listener throws, under the name \<open>'event'\<close> or under the name of
  the event's type, its exception is the exception of \<open>emitEvent\<close>, and the deliveries
  made are those up to this listener: none of the listeners after it is called. Where
  no \<open>try\<close> encloses the emission (\<open>workflow:start\<close>, and \<open>agent:error\<close> and
  \<open>workflow:error\<close>, emitted in the \<open>catch\<close> blocks) the exception leaves \<open>execute\<close>.
\<close>

theorem listener_exception_leaves_emitEvent:
  "(all_return before e \<and> l (e\<lparr>ev_data := payload_after before e\<rparr>) = (d, Some x) \<longrightarrow>
      (\<exists>ds. emitEvent \<lparr>on_event = before @ l # after, on_type = typed\<rparr> e = (d, Some x, ds) \<and>
         map (\<lambda>y. (dl_channel y, dl_position y)) ds =
           map (\<lambda>j. (On_event, j)) [0..<Suc (length before)])) \<and>
   (all_return evs e \<and> typed (ev_type e) = before @ l # after \<and>
    all_return before (e\<lparr>ev_data := payload_after evs e\<rparr>) \<and>
    l (e\<lparr>ev_data := payload_after before (e\<lparr>ev_data := payload_after evs e\<rparr>)\<rparr>)
      = (d, Some x) \<longrightarrow>
      (\<exists>ds. emitEvent \<lparr>on_event = evs, on_type = typed\<rparr> e = (d, Some x, ds) \<and>
         map (\<lambda>y. (dl_channel y, dl_position y)) ds =
           map (\<lambda>j. (On_event, j)) [0..<length evs] @
           map (\<lambda>j. (On_type (ev_type e), j)) [0..<Suc (length before)])) \<and>
   (fst (snd (emitEvent (wf_listeners flow)
          \<lparr>ev_type = Workflow_start, ev_timestamp = now,
           ev_data = WorkflowInfo (wc_name (wf_config flow)) (length (wf_steps flow)),
           ev_error = None\<rparr>)) = Some x \<longrightarrow>
      fst (AgentWorkflow_execute flow winput ic wid now tie) = Raised x) \<and>
   (emit_start flow (seed_state winput ic wid now tie) = (None, w1) \<and>
    AgentWorkflow_execute_try flow now w1 = (Inl werror, w2) \<and>
    asError werror = Returned we \<and>
    fst (snd (emitEvent (wf_listeners flow)
          \<lparr>ev_type = Workflow_error, ev_timestamp = w_clock w2,
           ev_data = WorkflowResultData
             \<lparr>wr_success = False, wr_data = None, wr_steps = w_stepResults w2,
              wr_error = Some we, wr_executionTime = w_clock w2 - now\<rparr>,
           ev_error = Some we\<rparr>)) = Some x \<longrightarrow>
      fst (AgentWorkflow_execute flow winput ic wid now tie) = Raised x) \<and>
   (ensure_initialized ag st = (None, st0) \<and>
    BaseAgent_execute_try ag input (new_executionContext input partial cid (a_clock st0))
      (a_clock st0) st0 = (Inl error, st1) \<and>
    normalizeError error = Returned agentError \<and>
    fst (snd (emitEvent (listeners ag)
          \<lparr>ev_type = Agent_error, ev_timestamp = a_clock st1,
           ev_data = AgentResultData
             \<lparr>ar_success = False, ar_data = None, ar_error = Some agentError,
              ar_executionTime = a_clock st1 - a_clock st0,
              ar_metadata = ctx_metadata (new_executionContext input partial cid (a_clock st0))\<rparr>,
           ev_error = Some agentError\<rparr>)) = Some x \<longrightarrow>
      fst (BaseAgent_execute ag input partial cid st) = Raised x)"
  using emitEvent_first_thrower [of before e l d x after typed]
    emitEvent_first_typed_thrower [of evs e typed before l after d x]
    start_exception_leaves_execute [of flow now x winput ic wid tie]
    workflow_error_exception_leaves_execute [of flow winput ic wid now tie w1 werror w2 we x]
    agent_error_exception_leaves_execute [of ag st st0 input partial cid error st1 agentError x]
  by blast

theorem listener_exception_leaves_emitEvent_witness:
  "fst (snd (emitEvent
      \<lparr>on_event = [\<lambda>e. (ev_data e, None),
                   \<lambda>e. (ev_data e, Some (PlainError ''Error'' ''listener failed'')),
                   \<lambda>e. (ev_data e, None)],
       on_type = (\<lambda>t. [\<lambda>e. (ev_data e, None)])\<rparr>
      \<lparr>ev_type = Step_start, ev_timestamp = 0, ev_data = StepName ''score'' :: nat workflow_event_data,
       ev_error = None\<rparr>)) = Some (PlainError ''Error'' ''listener failed'') \<and>
   map (\<lambda>y. (dl_channel y, dl_position y)) (snd (snd (emitEvent
      \<lparr>on_event = [\<lambda>e. (ev_data e, None),
                   \<lambda>e. (ev_data e, Some (PlainError ''Error'' ''listener failed'')),
                   \<lambda>e. (ev_data e, None)],
       on_type = (\<lambda>t. [\<lambda>e. (ev_data e, None)])\<rparr>
      \<lparr>ev_type = Step_start, ev_timestamp = 0, ev_data = StepName ''score'' :: nat workflow_event_data,
       ev_error = None\<rparr>))) = [(On_event, 0), (On_event, 1)] \<and>
   fst (snd (emitEvent
      \<lparr>on_event = [\<lambda>e. (ev_data e, None)],
       on_type = (\<lambda>t. [\<lambda>e. (ev_data e, None),
                        \<lambda>e. (ev_data e, Some (PlainError ''Error'' ''listener failed'')),
                        \<lambda>e. (ev_data e, None)])\<rparr>
      \<lparr>ev_type = Step_start, ev_timestamp = 0, ev_data = StepName ''score'' :: nat workflow_event_data,
       ev_error = None\<rparr>)) = Some (PlainError ''Error'' ''listener failed'') \<and>
   map (\<lambda>y. (dl_channel y, dl_position y)) (snd (snd (emitEvent
      \<lparr>on_event = [\<lambda>e. (ev_data e, None)],
       on_type = (\<lambda>t. [\<lambda>e. (ev_data e, None),
                        \<lambda>e. (ev_data e, Some (PlainError ''Error'' ''listener failed'')),
                        \<lambda>e. (ev_data e, None)])\<rparr>
      \<lparr>ev_type = Step_start, ev_timestamp = 0, ev_data = StepName ''score'' :: nat workflow_event_data,
       ev_error = None\<rparr>))) =
     [(On_event, 0), (On_type Step_start, 0), (On_type Step_start, 1)] \<and>
   fst (AgentWorkflow_execute ((pipeline None [score_step])\<lparr>wf_listeners := objector Workflow_start\<rparr>)
          (Val 20) None ''wf-1'' 0 False) = Raised (PlainError ''Error'' ''listener failed'') \<and>
   fst (AgentWorkflow_execute ((pipeline None [score_step])\<lparr>wf_listeners := objector Workflow_error\<rparr>)
          (Val 0) None ''wf-1'' 0 False) = Raised (PlainError ''Error'' ''listener failed'') \<and>
   fst (BaseAgent_execute (echo_agent\<lparr>listeners := objector Agent_error\<rparr>) Null None
          ''echo-0-abc'' idle_state) = Raised (PlainError ''Error'' ''listener failed'')"
proof -
  let ?boom = "PlainError ''Error'' ''listener failed''"
  let ?obs = "\<lambda>e :: nat workflow_event_data event. (ev_data e, None :: thrown option)"
  let ?thr = "\<lambda>e :: nat workflow_event_data event. (ev_data e, Some ?boom)"
  let ?ev = "\<lparr>ev_type = Step_start, ev_timestamp = 0, ev_data = StepName ''score'',
              ev_error = None\<rparr> :: nat workflow_event_data event"
  let ?typed1 = "\<lambda>t :: event_type. [?obs]"
  let ?typed2 = "\<lambda>t :: event_type. [?obs, ?thr, ?obs]"
  let ?start = "(pipeline None [score_step])\<lparr>wf_listeners := objector Workflow_start\<rparr>"
  let ?flow = "(pipeline None [score_step])\<lparr>wf_listeners := objector Workflow_error\<rparr>"
  let ?ag = "echo_agent\<lparr>listeners := objector Agent_error\<rparr>"
  let ?inv = "AgentError ''Input cannot be null or undefined'' ''INVALID_INPUT'' None"
  let ?nts = "PlainError ''Error'' ''Nothing to score''"
  define w1 where "w1 = snd (emit_start ?flow (seed_state (Val 0) None ''wf-1'' 0 False))"
  define w2 where "w2 = snd (AgentWorkflow_execute_try ?flow 0 w1)"
  define st0 where "st0 = snd (ensure_initialized ?ag idle_state)"
  have h1: "all_return [?obs] ?ev \<and> ?thr (?ev\<lparr>ev_data := payload_after [?obs] ?ev\<rparr>)
              = (StepName ''score'', Some ?boom)"
    by simp
  have h2: "all_return [?obs] ?ev \<and> ?typed2 (ev_type ?ev) = [?obs] @ ?thr # [?obs] \<and>
      all_return [?obs] (?ev\<lparr>ev_data := payload_after [?obs] ?ev\<rparr>) \<and>
      ?thr (?ev\<lparr>ev_data := payload_after [?obs] (?ev\<lparr>ev_data := payload_after [?obs] ?ev\<rparr>)\<rparr>)
        = (StepName ''score'', Some ?boom)"
    by simp
  have h3: "fst (snd (emitEvent (wf_listeners ?start)
          \<lparr>ev_type = Workflow_start, ev_timestamp = 0,
           ev_data = WorkflowInfo (wc_name (wf_config ?start)) (length (wf_steps ?start)),
           ev_error = None\<rparr>)) = Some ?boom"
    by (simp add: emitEvent_def objector_def)
  have "fst (emit_start ?flow (seed_state (Val 0) None ''wf-1'' 0 False)) = None"
    by (simp add: emit_start_def AgentWorkflow_emitEvent_def emitEvent_def objector_def)
  then have h4a: "emit_start ?flow (seed_state (Val 0) None ''wf-1'' 0 False) = (None, w1)"
    by (simp add: prod_eq_iff w1_def)
  have "fst (AgentWorkflow_execute_try ?flow 0 w1) = Inl ?nts"
    by (simp add: w1_def workflow_run pipeline_steps objector_def)
  then have h4b: "AgentWorkflow_execute_try ?flow 0 w1 = (Inl ?nts, w2)"
    by (simp add: prod_eq_iff w2_def)
  have h4c: "asError ?nts = Returned ?nts" by (simp add: asError_def)
  have h4d: "fst (snd (emitEvent (wf_listeners ?flow)
          \<lparr>ev_type = Workflow_error, ev_timestamp = w_clock w2,
           ev_data = WorkflowResultData
             \<lparr>wr_success = False, wr_data = None, wr_steps = w_stepResults w2,
              wr_error = Some ?nts, wr_executionTime = w_clock w2 - 0\<rparr>,
           ev_error = Some ?nts\<rparr>)) = Some ?boom"
    by (simp add: emitEvent_def objector_def)
  have "fst (ensure_initialized ?ag idle_state) = None"
    by (simp add: ensure_initialized_def initialize_def BaseAgent_initialize_def
        BaseAgent_emitEvent_def emitEvent_def objector_def echo_agent_def idle_state_def)
  then have h5a: "ensure_initialized ?ag idle_state = (None, st0)"
    by (simp add: prod_eq_iff st0_def)
  have h5b: "BaseAgent_execute_try ?ag Null (new_executionContext Null None ''echo-0-abc'' (a_clock st0))
      (a_clock st0) st0 = (Inl ?inv, st0)"
    by (simp add: BaseAgent_execute_try_def validateInput_def)
  have h5c: "normalizeError ?inv = Returned ?inv" by simp
  have h5d: "fst (snd (emitEvent (listeners ?ag)
          \<lparr>ev_type = Agent_error, ev_timestamp = a_clock st0,
           ev_data = AgentResultData
             \<lparr>ar_success = False, ar_data = None, ar_error = Some ?inv,
              ar_executionTime = a_clock st0 - a_clock st0,
              ar_metadata = ctx_metadata (new_executionContext Null None ''echo-0-abc'' (a_clock st0))\<rparr>,
           ev_error = Some ?inv\<rparr>)) = Some ?boom"
    by (simp add: emitEvent_def objector_def)
  note one = listener_exception_leaves_emitEvent
    [where before = "[?obs]" and e = ?ev and l = ?thr and d = "StepName ''score''"
      and x = ?boom and after = "[?obs]" and typed = ?typed1 and evs = "[]"
      and flow = ?start and now = 0 and winput = "Val 20" and ic = None and wid = "''wf-1''"
      and tie = False and ag = ?ag and st = idle_state and ?st0.0 = st0 and input = Null
      and partial = None and cid = "''echo-0-abc''" and error = ?inv and ?st1.0 = st0
      and agentError = ?inv]
  note two = listener_exception_leaves_emitEvent
    [where before = "[?obs]" and e = ?ev and l = ?thr and d = "StepName ''score''"
      and x = ?boom and after = "[?obs]" and typed = ?typed2 and evs = "[?obs]"
      and flow = ?flow and now = 0 and winput = "Val 0" and ic = None and wid = "''wf-1''"
      and tie = False and ?w1.0 = w1 and werror = ?nts and ?w2.0 = w2 and we = ?nts]
  from one h1 obtain ds1 where
    a: "emitEvent \<lparr>on_event = [?obs] @ ?thr # [?obs], on_type = ?typed1\<rparr> ?ev
          = (StepName ''score'', Some ?boom, ds1)"
       "map (\<lambda>y. (dl_channel y, dl_position y)) ds1 = map (\<lambda>j. (On_event, j)) [0..<Suc (length [?obs])]"
    by blast
  from two h2 obtain ds2 where
    b: "emitEvent \<lparr>on_event = [?obs], on_type = ?typed2\<rparr> ?ev
          = (StepName ''score'', Some ?boom, ds2)"
       "map (\<lambda>y. (dl_channel y, dl_position y)) ds2 =
          map (\<lambda>j. (On_event, j)) [0..<length [?obs]] @
          map (\<lambda>j. (On_type (ev_type ?ev), j)) [0..<Suc (length [?obs])]"
    by blast
  from one h3 have c: "fst (AgentWorkflow_execute ?start (Val 20) None ''wf-1'' 0 False) = Raised ?boom"
    by blast
  from two h4a h4b h4c h4d
  have d: "fst (AgentWorkflow_execute ?flow (Val 0) None ''wf-1'' 0 False) = Raised ?boom"
    by blast
  from one h5a h5b h5c h5d
  have e: "fst (BaseAgent_execute ?ag Null None ''echo-0-abc'' idle_state) = Raised ?boom"
    by blast
  have u: "[0..<Suc (Suc 0)] = [0, Suc 0]" by (simp add: upt_rec)
  from a b c d e show ?thesis by (simp add: u)
qed

text \<open>
  C2, as the claim states it, fails. A listener that throws on \<open>step:complete\<close> turns a
  run whose only handler succeeds into a failed run: the exception lands in the \<open>catch\<close>
  of \<open>executeStep\<close>, the step is recorded as failed, and the \<open>stop\<close> strategy aborts.
\<close>

theorem listener_exception_changes_the_result:
  "fst (AgentWorkflow_execute ((pipeline None [score_step])\<lparr>wf_listeners := heckler\<rparr>)
          (Val 20) None ''wf-1'' 0 False) =
     Returned
       \<lparr>wr_success = False, wr_data = None,
        wr_steps =
          [\<lparr>sr_step = ''score'', sr_success = False, sr_data = Undefined,
            sr_error = Some (PlainError ''Error'' ''listener failed''),
            sr_startedAt = 0, sr_completedAt = 2, sr_duration = 2\<rparr>],
        wr_error = Some (PlainError ''Error'' ''listener failed''), wr_executionTime = 2\<rparr> \<and>
   fst (AgentWorkflow_execute (pipeline None [score_step]) (Val 20) None ''wf-1'' 0 False) =
     Returned
       \<lparr>wr_success = True, wr_data = Some (Val 65),
        wr_steps =
          [\<lparr>sr_step = ''score'', sr_success = True, sr_data = Val 65, sr_error = None,
            sr_startedAt = 0, sr_completedAt = 2, sr_duration = 2\<rparr>],
        wr_error = None, wr_executionTime = 2\<rparr>"
  by (simp add: workflow_run pipeline_steps heckler_def)

end
